theory Spec2Isabelle
  imports Complex_Main
begin

section \<open>Values of the JSON document and Python's operations on them\<close>

text \<open>
  The importer works on what \<^verbatim>\<open>json.loads\<close> returns: dicts, lists, strings, ints, floats,
  booleans and \<^verbatim>\<open>None\<close>. \<open>JObj kvs\<close> stands for the dict that maps a key to
  \<open>map_of kvs key\<close>. Floats are modelled as reals: rounding, NaN and the infinities
  are outside the model. An integer of the document has any size; converting one to a
  float raises when it is beyond the range of a double (see \<open>py_float\<close>).
\<close>

datatype json =
    JNull
  | JBool bool
  | JInt int
  | JFloat real
  | JStr string
  | JArr "json list"
  | JObj "(string \<times> json) list"

text \<open>
  The exceptions the code can meet. \<open>JSONDecodeError\<close> is raised by \<^verbatim>\<open>json.loads\<close>,
  \<open>KeyError\<close> by a missing dict key, \<open>ValueError\<close> carries its message (the resolver raises
  one with its own message, \<^verbatim>\<open>float()\<close> another), \<open>OverflowError\<close> by \<^verbatim>\<open>float()\<close> on an
  integer too large for a float, \<open>RuntimeError\<close> and \<open>TypeError\<close> come from the host.
\<close>

datatype error =
    IOError
  | JSONDecodeError
  | KeyError string
  | TypeError
  | ValueError string
  | RuntimeError
  | OverflowError

type_synonym key = "string \<times> int"

text \<open>\<^verbatim>\<open>keyframe[f]\<close>: only a dict can be indexed by a string.\<close>

fun py_getitem :: "json \<Rightarrow> string \<Rightarrow> error + json" where
  "py_getitem (JObj kvs) f = (case map_of kvs f of None \<Rightarrow> Inl (KeyError f) | Some v \<Rightarrow> Inr v)"
| "py_getitem j f = Inl TypeError"

text \<open>
  Iteration, as in \<^verbatim>\<open>for keyframe in keyframe_data\<close>, \<^verbatim>\<open>*keyframe['co']\<close> and
  \<^verbatim>\<open>[float(v) for v in ...]\<close>: a list gives its items, a dict its keys, a string its
  characters; nothing else is iterable.
\<close>

fun py_iter :: "json \<Rightarrow> error + json list" where
  "py_iter (JArr xs) = Inr xs"
| "py_iter (JObj kvs) = Inr (map JStr (rev (remdups (rev (map fst kvs)))))"
| "py_iter (JStr s) = Inr (map (\<lambda>c. JStr [c]) s)"
| "py_iter j = Inl TypeError"

text \<open>Lists and dicts are unhashable: they cannot be tested for membership in a set.\<close>

fun hashable :: "json \<Rightarrow> bool" where
  "hashable (JArr xs) = False"
| "hashable (JObj kvs) = False"
| "hashable j = True"

text \<open>
  Python compares numbers by value: \<^verbatim>\<open>1 == 1.0 == True\<close>. \<open>py_int j\<close> is the integer
  that \<open>j\<close> equals, if there is one.
\<close>

fun py_int :: "json \<Rightarrow> int option" where
  "py_int (JInt n) = Some n"
| "py_int (JBool b) = Some (if b then 1 else 0)"
| "py_int (JFloat r) = (if r = of_int \<lfloor>r\<rfloor> then Some \<lfloor>r\<rfloor> else None)"
| "py_int j = None"

text \<open>The channel key that the tuple \<^verbatim>\<open>(data_path, array_index)\<close> equals, if any.\<close>

definition py_key :: "json \<Rightarrow> json \<Rightarrow> key option" where
  "py_key dp ai = (case dp of JStr p \<Rightarrow> map_option (Pair p) (py_int ai) | _ \<Rightarrow> None)"

text \<open>\<^verbatim>\<open>(data_path, array_index) in S\<close> for a set \<open>S\<close> of channel keys.\<close>

definition py_in :: "json \<Rightarrow> json \<Rightarrow> key set \<Rightarrow> error + bool" where
  "py_in dp ai S =
     (if hashable dp \<and> hashable ai
      then Inr (case py_key dp ai of Some k \<Rightarrow> k \<in> S | None \<Rightarrow> False)
      else Inl TypeError)"

section \<open>The host's curve container\<close>

text \<open>
  A control point with the attributes the exporter writes and the importer sets. The
  field \<open>kf_type\<close> is the source's \<^verbatim>\<open>type\<close>. Enumerated tags are the strings the host's
  Python interface shows.
\<close>

record keyframe =
  co :: "real \<times> real"
  handle_left :: "real \<times> real"
  handle_left_type :: string
  handle_right :: "real \<times> real"
  handle_right_type :: string
  interpolation :: string
  easing :: string
  amplitude :: real
  "back" :: real
  period :: real
  kf_type :: string

text \<open>
  A channel. \<open>group\<close> is the name of the action group it belongs to, if any;
  \<open>sampled_points\<close> holds its content while it is in sampled storage.
\<close>

record fcurve =
  data_path :: string
  array_index :: int
  group :: "string option"
  keyframe_points :: "keyframe list"
  sampled_points :: "(real \<times> real) list"

record action =
  name :: string
  groups :: "string list"
  fcurves :: "fcurve list"

text \<open>
  Modelled from the spec: the host and the Python built-ins are not part of the
  repository. What the code needs from them and the spec leaves open is a parameter:
  \<^item> \<open>float_of_str\<close>: \<^verbatim>\<open>float(s)\<close> for a string, \<open>None\<close> where it raises ValueError;
  \<^item> \<open>is_enum prop s\<close>: the host accepts the tag \<open>s\<close> for the enumerated property \<open>prop\<close>;
  \<^item> \<open>fresh_point ps t v\<close>: the attributes the host gives a point newly inserted at
    \<open>(t, v)\<close> among the points \<open>ps\<close>;
  \<^item> \<open>frange\<close>, \<open>convert_to_keyframes\<close>, \<open>convert_to_samples\<close>: a channel's time range
    and the two conversions between sampled and keyframe storage.
\<close>

record host =
  float_of_str :: "string \<Rightarrow> real option"
  is_enum :: "string \<Rightarrow> string \<Rightarrow> bool"
  fresh_point :: "keyframe list \<Rightarrow> real \<Rightarrow> real \<Rightarrow> keyframe"
  frange :: "fcurve \<Rightarrow> real \<times> real"
  convert_to_keyframes :: "int \<Rightarrow> int \<Rightarrow> fcurve \<Rightarrow> error + fcurve"
  convert_to_samples :: "int \<Rightarrow> int \<Rightarrow> fcurve \<Rightarrow> error + fcurve"

definition fkey :: "fcurve \<Rightarrow> key" where
  "fkey c = (data_path c, array_index c)"

definition time :: "keyframe \<Rightarrow> real" where
  "time p = fst (co p)"

section \<open>Import: resolving a channel\<close>

text \<open>
  Modelled from the spec: \<^verbatim>\<open>action.fcurves.new(data_path, index=array_index)\<close> of the
  host. It takes a string and an integer (a Python bool is an integer), refuses a key
  the container already holds, and appends an empty channel that belongs to no group.
  The host's range check on the index is not modelled.
\<close>

fun host_int :: "json \<Rightarrow> int option" where
  "host_int (JInt n) = Some n"
| "host_int (JBool b) = Some (if b then 1 else 0)"
| "host_int j = None"

definition new_fcurve :: "string \<Rightarrow> int \<Rightarrow> fcurve" where
  "new_fcurve p i =
     \<lparr>data_path = p, array_index = i, group = None, keyframe_points = [],
      sampled_points = []\<rparr>"

definition fcurves_new :: "json \<Rightarrow> json \<Rightarrow> action \<Rightarrow> action \<times> (error + key)" where
  "fcurves_new dp ai a =
     (case dp of
        JStr p \<Rightarrow>
          (case host_int ai of
             Some i \<Rightarrow>
               if (p, i) \<in> fkey ` set (fcurves a) then (a, Inl RuntimeError)
               else (a\<lparr>fcurves := fcurves a @ [new_fcurve p i]\<rparr>, Inr (p, i))
           | None \<Rightarrow> (a, Inl TypeError))
      | _ \<Rightarrow> (a, Inl TypeError))"

text \<open>
  \<^verbatim>\<open>touch_fcurve(action, data_path, array_index, replace)\<close>. The loop stops at the first
  channel whose path and index both equal the arguments. Without \<open>replace\<close> that channel
  is returned; with it the channel is removed and a new one is created, as when no
  channel matches. The channel returned is named by its key: it is the first channel of
  the container with that key.
\<close>

definition matches :: "json \<Rightarrow> json \<Rightarrow> fcurve \<Rightarrow> bool" where
  "matches dp ai c = (dp = JStr (data_path c) \<and> py_int ai = Some (array_index c))"

definition touch_fcurve :: "action \<Rightarrow> json \<Rightarrow> json \<Rightarrow> bool \<Rightarrow> action \<times> (error + key)" where
  "touch_fcurve a dp ai replace =
     (case find (matches dp ai) (fcurves a) of
        Some curve \<Rightarrow>
          if \<not> replace then (a, Inr (fkey curve))
          else fcurves_new dp ai (a\<lparr>fcurves := remove1 curve (fcurves a)\<rparr>)
      | None \<Rightarrow> fcurves_new dp ai a)"

section \<open>Import: inserting one record\<close>

text \<open>
  \<^verbatim>\<open>float(v)\<close>. A float is a double: the largest one is \<open>2 ^ 1024 - 2 ^ 971\<close>, and an
  integer is converted by rounding to the nearest double, so \<^verbatim>\<open>float\<close> raises
  OverflowError on an integer whose absolute value is \<open>2 ^ 1024 - 2 ^ 970\<close> or more and
  returns a float on every other integer.
\<close>

definition double_limit :: int where
  "double_limit = 2 ^ 1024 - 2 ^ 970"

definition in_double_range :: "int \<Rightarrow> bool" where
  "in_double_range n = (\<bar>n\<bar> < double_limit)"

fun py_float :: "host \<Rightarrow> json \<Rightarrow> error + real" where
  "py_float h (JInt n) = (if in_double_range n then Inr (of_int n) else Inl OverflowError)"
| "py_float h (JFloat r) = Inr r"
| "py_float h (JBool b) = Inr (if b then 1 else 0)"
| "py_float h (JStr s) =
     (case float_of_str h s of
        None \<Rightarrow> Inl (ValueError ''could not convert string to float'')
      | Some r \<Rightarrow> Inr r)"
| "py_float h j = Inl TypeError"

text \<open>\<^verbatim>\<open>[float(v) for v in j]\<close>.\<close>

fun py_floats :: "host \<Rightarrow> json list \<Rightarrow> error + real list" where
  "py_floats h [] = Inr []"
| "py_floats h (x # xs) =
     (case py_float h x of
        Inl e \<Rightarrow> Inl e
      | Inr r \<Rightarrow> (case py_floats h xs of Inl e \<Rightarrow> Inl e | Inr rs \<Rightarrow> Inr (r # rs)))"

text \<open>
  Modelled from the spec: what the host's properties accept. A float property takes a
  Python number and no string, and refuses with TypeError an integer that does not
  convert to a float; a two-component vector takes a sequence of two floats; an
  enumerated property takes one of its tags.
\<close>

fun host_float :: "json \<Rightarrow> error + real" where
  "host_float (JInt n) = (if in_double_range n then Inr (of_int n) else Inl TypeError)"
| "host_float (JFloat r) = Inr r"
| "host_float (JBool b) = Inr (if b then 1 else 0)"
| "host_float j = Inl TypeError"

fun host_vec2 :: "real list \<Rightarrow> error + real \<times> real" where
  "host_vec2 [x, y] = Inr (x, y)"
| "host_vec2 rs = Inl (ValueError ''sequence should contain 2 items'')"

fun host_enum :: "host \<Rightarrow> string \<Rightarrow> json \<Rightarrow> error + string" where
  "host_enum h prop (JStr s) = (if is_enum h prop s then Inr s else Inl TypeError)"
| "host_enum h prop j = Inl TypeError"

text \<open>
  Lines 193 to 201 of the source, one entry per assignment in the source's order: the
  field read from the record and what is done with its value before the host stores
  it. \<open>amplitude\<close>, \<open>back\<close> and the handles go through \<^verbatim>\<open>float\<close>; \<open>period\<close> does not.
\<close>

definition float_field :: "host \<Rightarrow> (real \<Rightarrow> keyframe \<Rightarrow> keyframe) \<Rightarrow> json \<Rightarrow> error + (keyframe \<Rightarrow> keyframe)" where
  "float_field h upd j = (case py_float h j of Inl e \<Rightarrow> Inl e | Inr r \<Rightarrow> Inr (upd r))"

definition vec_field :: "host \<Rightarrow> (real \<times> real \<Rightarrow> keyframe \<Rightarrow> keyframe) \<Rightarrow> json \<Rightarrow> error + (keyframe \<Rightarrow> keyframe)" where
  "vec_field h upd j =
     (case py_iter j of
        Inl e \<Rightarrow> Inl e
      | Inr xs \<Rightarrow>
          (case py_floats h xs of
             Inl e \<Rightarrow> Inl e
           | Inr rs \<Rightarrow> (case host_vec2 rs of Inl e \<Rightarrow> Inl e | Inr v \<Rightarrow> Inr (upd v))))"

definition enum_field :: "host \<Rightarrow> string \<Rightarrow> (string \<Rightarrow> keyframe \<Rightarrow> keyframe) \<Rightarrow> json \<Rightarrow> error + (keyframe \<Rightarrow> keyframe)" where
  "enum_field h prop upd j = (case host_enum h prop j of Inl e \<Rightarrow> Inl e | Inr s \<Rightarrow> Inr (upd s))"

definition raw_float_field :: "(real \<Rightarrow> keyframe \<Rightarrow> keyframe) \<Rightarrow> json \<Rightarrow> error + (keyframe \<Rightarrow> keyframe)" where
  "raw_float_field upd j = (case host_float j of Inl e \<Rightarrow> Inl e | Inr r \<Rightarrow> Inr (upd r))"

definition assignments :: "host \<Rightarrow> (string \<times> (json \<Rightarrow> error + (keyframe \<Rightarrow> keyframe))) list" where
  "assignments h =
     [(''amplitude'', float_field h (\<lambda>r p. p\<lparr>amplitude := r\<rparr>)),
      (''back'', float_field h (\<lambda>r p. p\<lparr>back := r\<rparr>)),
      (''easing'', enum_field h ''easing'' (\<lambda>s p. p\<lparr>easing := s\<rparr>)),
      (''handle_left'', vec_field h (\<lambda>v p. p\<lparr>handle_left := v\<rparr>)),
      (''handle_left_type'', enum_field h ''handle_left_type'' (\<lambda>s p. p\<lparr>handle_left_type := s\<rparr>)),
      (''handle_right'', vec_field h (\<lambda>v p. p\<lparr>handle_right := v\<rparr>)),
      (''handle_right_type'', enum_field h ''handle_right_type'' (\<lambda>s p. p\<lparr>handle_right_type := s\<rparr>)),
      (''interpolation'', enum_field h ''interpolation'' (\<lambda>s p. p\<lparr>interpolation := s\<rparr>)),
      (''period'', raw_float_field (\<lambda>r p. p\<lparr>period := r\<rparr>))]"

text \<open>
  The assignments run in order on the point; the first one that raises leaves the point
  as the assignments before it made it.
\<close>

fun assign :: "(string \<times> (json \<Rightarrow> error + (keyframe \<Rightarrow> keyframe))) list \<Rightarrow> json \<Rightarrow> keyframe \<Rightarrow> keyframe \<times> (error + unit)" where
  "assign [] kf p = (p, Inr ())"
| "assign ((f, conv) # rest) kf p =
     (case py_getitem kf f of
        Inl e \<Rightarrow> (p, Inl e)
      | Inr j \<Rightarrow> (case conv j of Inl e \<Rightarrow> (p, Inl e) | Inr upd \<Rightarrow> assign rest kf (upd p)))"

text \<open>
  Modelled from the spec: \<^verbatim>\<open>keyframe_points.insert(frame, value, keyframe_type=...)\<close> of
  the host. A channel holds its points ordered by time. A point is inserted at its place
  in that order with the given position and type tag; if the channel already has a point
  at that time, no point is added: that point gets the new value, its handles move with
  it, and it is the point returned. Times are compared exactly, and the points beside
  the new one are left as they are (the host's tolerance on times and its recalculation
  of automatic handles are not modelled). The result is the points before, the point
  returned and the points after.
\<close>

definition moved :: "keyframe \<Rightarrow> real \<Rightarrow> keyframe" where
  "moved q v =
     (let dy = v - snd (co q) in
      q\<lparr>co := (fst (co q), v),
        handle_left := (fst (handle_left q), snd (handle_left q) + dy),
        handle_right := (fst (handle_right q), snd (handle_right q) + dy)\<rparr>)"

definition kp_insert :: "host \<Rightarrow> real \<Rightarrow> real \<Rightarrow> string \<Rightarrow> keyframe list \<Rightarrow> keyframe list \<times> keyframe \<times> keyframe list" where
  "kp_insert h t v ty ps =
     (let before = takeWhile (\<lambda>p. time p < t) ps;
          rest = dropWhile (\<lambda>p. time p < t) ps;
          fresh = (fresh_point h ps t v)\<lparr>co := (t, v), kf_type := ty\<rparr>
      in case rest of
           [] \<Rightarrow> (before, fresh, [])
         | q # qs \<Rightarrow> if time q = t then (before, moved q v, qs) else (before, fresh, rest))"

text \<open>The arguments of the call: exactly two numbers and a type tag.\<close>

definition insert_args :: "host \<Rightarrow> json list \<Rightarrow> json \<Rightarrow> error + real \<times> real \<times> string" where
  "insert_args h args tj =
     (case args of
        [x, y] \<Rightarrow>
          (case host_float x of
             Inl e \<Rightarrow> Inl e
           | Inr t \<Rightarrow>
               (case host_float y of
                  Inl e \<Rightarrow> Inl e
                | Inr v \<Rightarrow> (case host_enum h ''type'' tj of Inl e \<Rightarrow> Inl e | Inr ty \<Rightarrow> Inr (t, v, ty))))
      | _ \<Rightarrow> Inl TypeError)"

text \<open>The points of the channel named by a key, and the container with them replaced.\<close>

definition curve_points :: "key \<Rightarrow> action \<Rightarrow> keyframe list" where
  "curve_points k a =
     (case find (\<lambda>c. fkey c = k) (fcurves a) of None \<Rightarrow> [] | Some c \<Rightarrow> keyframe_points c)"

fun map_first :: "('a \<Rightarrow> bool) \<Rightarrow> ('a \<Rightarrow> 'a) \<Rightarrow> 'a list \<Rightarrow> 'a list" where
  "map_first P f [] = []"
| "map_first P f (x # xs) = (if P x then f x # xs else x # map_first P f xs)"

definition with_points :: "key \<Rightarrow> keyframe list \<Rightarrow> action \<Rightarrow> action" where
  "with_points k ps a =
     a\<lparr>fcurves := map_first (\<lambda>c. fkey c = k) (\<lambda>c. c\<lparr>keyframe_points := ps\<rparr>) (fcurves a)\<rparr>"

text \<open>
  Lines 187 to 201: the call of \<^verbatim>\<open>insert\<close> on the channel, then the assignments on the
  point it returned.
\<close>

definition insert_point :: "host \<Rightarrow> json \<Rightarrow> key \<Rightarrow> action \<Rightarrow> action \<times> (error + unit)" where
  "insert_point h keyframe k a =
     (case py_getitem keyframe ''co'' of
        Inl e \<Rightarrow> (a, Inl e)
      | Inr cj \<Rightarrow>
     (case py_getitem keyframe ''type'' of
        Inl e \<Rightarrow> (a, Inl e)
      | Inr tj \<Rightarrow>
     (case py_iter cj of
        Inl e \<Rightarrow> (a, Inl e)
      | Inr args \<Rightarrow>
     (case insert_args h args tj of
        Inl e \<Rightarrow> (a, Inl e)
      | Inr (t, v, ty) \<Rightarrow>
          (case kp_insert h t v ty (curve_points k a) of
             (before, p0, after) \<Rightarrow>
               (case assign (assignments h) keyframe p0 of
                  (p1, r) \<Rightarrow> (with_points k (before @ p1 # after) a, r)))))))"

section \<open>Import: the pass over the document\<close>

text \<open>
  \<^verbatim>\<open>if filter and (data_path, array_index) not in filter: continue\<close>. The filter is
  \<^verbatim>\<open>None\<close> or a set; both \<^verbatim>\<open>None\<close> and the empty set are false in Python.
\<close>

definition filter_skips :: "key set option \<Rightarrow> json \<Rightarrow> json \<Rightarrow> error + bool" where
  "filter_skips filt dp ai =
     (case filt of
        None \<Rightarrow> Inr False
      | Some F \<Rightarrow>
          if F = {} then Inr False
          else (case py_in dp ai F of Inl e \<Rightarrow> Inl e | Inr b \<Rightarrow> Inr (\<not> b)))"

text \<open>
  The body of the loop of \<^verbatim>\<open>insert_keyframes\<close> (lines 172 to 201) on the container and
  the set \<^verbatim>\<open>replaced\<close>. An exception leaves both as they are at that point.
\<close>

definition insert_keyframe :: "host \<Rightarrow> key set option \<Rightarrow> bool \<Rightarrow> json \<Rightarrow> action \<times> key set \<Rightarrow> (action \<times> key set) \<times> (error + unit)" where
  "insert_keyframe h filt replace_curve keyframe st =
     (case st of (a, replaced) \<Rightarrow>
     (case py_getitem keyframe ''data_path'' of
        Inl e \<Rightarrow> (st, Inl e)
      | Inr dp \<Rightarrow>
     (case py_getitem keyframe ''array_index'' of
        Inl e \<Rightarrow> (st, Inl e)
      | Inr ai \<Rightarrow>
     (case filter_skips filt dp ai of
        Inl e \<Rightarrow> (st, Inl e)
      | Inr True \<Rightarrow> (st, Inr ())
      | Inr False \<Rightarrow>
     (case py_in dp ai replaced of
        Inl e \<Rightarrow> (st, Inl e)
      | Inr seen \<Rightarrow>
     (case touch_fcurve a dp ai (if \<not> seen then replace_curve else False) of
        (a1, Inl e) \<Rightarrow> ((a1, replaced), Inl e)
      | (a1, Inr k) \<Rightarrow>
          (case insert_point h keyframe k a1 of
             (a2, r) \<Rightarrow> ((a2, if replace_curve then insert k replaced else replaced), r))))))))"

fun insert_keyframes_loop :: "host \<Rightarrow> key set option \<Rightarrow> bool \<Rightarrow> json list \<Rightarrow> action \<times> key set \<Rightarrow> (action \<times> key set) \<times> (error + unit)" where
  "insert_keyframes_loop h filt replace_curve [] st = (st, Inr ())"
| "insert_keyframes_loop h filt replace_curve (keyframe # rest) st =
     (case insert_keyframe h filt replace_curve keyframe st of
        (st1, Inl e) \<Rightarrow> (st1, Inl e)
      | (st1, Inr u) \<Rightarrow> insert_keyframes_loop h filt replace_curve rest st1)"

text \<open>
  \<^verbatim>\<open>insert_keyframes(action, keyframe_data, filter, replace_curve)\<close>: the set
  \<^verbatim>\<open>replaced\<close> starts empty.
\<close>

definition insert_keyframes :: "host \<Rightarrow> action \<Rightarrow> json \<Rightarrow> key set option \<Rightarrow> bool \<Rightarrow> action \<times> (error + unit)" where
  "insert_keyframes h a keyframe_data filt replace_curve =
     (case py_iter keyframe_data of
        Inl e \<Rightarrow> (a, Inl e)
      | Inr kfs \<Rightarrow>
          (case insert_keyframes_loop h filt replace_curve kfs (a, {}) of
             ((a', replaced), r) \<Rightarrow> (a', r)))"

section \<open>The importing operators\<close>

text \<open>
  The object an operator works on: it may have animation data, and that may have an
  active action. The file at \<^verbatim>\<open>filepath\<close> cannot be opened, holds text that is not JSON,
  or holds JSON text for a value; \<^verbatim>\<open>json.loads\<close> and \<^verbatim>\<open>json.dumps\<close> themselves are the
  library's and are not modelled.
\<close>

record anim_data =
  action :: "action option"

record obj =
  animation_data :: "anim_data option"

datatype file_content = NoFile | NotJson | JsonText json

definition no_action_message :: string where
  "no_action_message = ''Operator %s should only be called on objects with animation data and action''"

text \<open>
  \<^verbatim>\<open>FCurveResolverMixin.execute\<close>, shared by the curve replacer
  (\<^verbatim>\<open>replace_curve = True\<close>) and the curve merger (\<^verbatim>\<open>replace_curve = False\<close>): the file is
  opened and parsed first, then the object is checked for an action.
\<close>

definition resolver_execute :: "host \<Rightarrow> bool \<Rightarrow> file_content \<Rightarrow> obj \<Rightarrow> obj \<times> (error + unit)" where
  "resolver_execute h replace_curve f ob =
     (case f of
        NoFile \<Rightarrow> (ob, Inl IOError)
      | NotJson \<Rightarrow> (ob, Inl JSONDecodeError)
      | JsonText anim_data_json \<Rightarrow>
          (case animation_data ob of
             None \<Rightarrow> (ob, Inl (ValueError no_action_message))
           | Some ad \<Rightarrow>
               (case action ad of
                  None \<Rightarrow> (ob, Inl (ValueError no_action_message))
                | Some a \<Rightarrow>
                    (case py_getitem anim_data_json ''keyframes'' of
                       Inl e \<Rightarrow> (ob, Inl e)
                     | Inr kd \<Rightarrow>
                         (case insert_keyframes h a kd None replace_curve of
                            (a', r) \<Rightarrow> (ob\<lparr>animation_data := Some (ad\<lparr>action := Some a'\<rparr>)\<rparr>, r))))))"

definition fcurve_replacer :: "host \<Rightarrow> file_content \<Rightarrow> obj \<Rightarrow> obj \<times> (error + unit)" where
  "fcurve_replacer h = resolver_execute h True"

definition fcurve_merger :: "host \<Rightarrow> file_content \<Rightarrow> obj \<Rightarrow> obj \<times> (error + unit)" where
  "fcurve_merger h = resolver_execute h False"

text \<open>
  \<^verbatim>\<open>ANIMIO_OT_action_importer.execute\<close>: the object's animation data is cleared and
  created anew, an empty action with the document's name becomes the active one, and
  every record is inserted with the defaults of \<^verbatim>\<open>insert_keyframes\<close> (no filter,
  \<^verbatim>\<open>replace_curve=True\<close>). The host's list of all actions is not modelled.
\<close>

definition new_action :: "string \<Rightarrow> action" where
  "new_action n = \<lparr>name = n, groups = [], fcurves = []\<rparr>"

definition with_action :: "action option \<Rightarrow> obj \<Rightarrow> obj" where
  "with_action a ob = ob\<lparr>animation_data := Some \<lparr>action = a\<rparr>\<rparr>"

definition action_importer :: "host \<Rightarrow> file_content \<Rightarrow> obj \<Rightarrow> obj \<times> (error + unit)" where
  "action_importer h f ob =
     (case f of
        NoFile \<Rightarrow> (ob, Inl IOError)
      | NotJson \<Rightarrow> (ob, Inl JSONDecodeError)
      | JsonText anim_data_json \<Rightarrow>
          (case py_getitem anim_data_json ''name'' of
             Inl e \<Rightarrow> (with_action None ob, Inl e)
           | Inr (JStr n) \<Rightarrow>
               (case py_getitem anim_data_json ''keyframes'' of
                  Inl e \<Rightarrow> (with_action (Some (new_action n)) ob, Inl e)
                | Inr kd \<Rightarrow>
                    (case insert_keyframes h (new_action n) kd None True of
                       (a', r) \<Rightarrow> (with_action (Some a') ob, r)))
           | Inr j \<Rightarrow> (with_action None ob, Inl TypeError)))"

text \<open>The active action of an object, if it has one.\<close>

definition active_action :: "obj \<Rightarrow> action option" where
  "active_action ob = (case animation_data ob of None \<Rightarrow> None | Some ad \<Rightarrow> action ad)"

section \<open>Export\<close>

text \<open>
  \<^verbatim>\<open>keyframe_to_json\<close>. Its check that the argument is a keyframe cannot fail here: the
  points of a channel are keyframes by their type.
\<close>

definition vec_json :: "real \<times> real \<Rightarrow> json" where
  "vec_json v = JArr [JFloat (fst v), JFloat (snd v)]"

definition keyframe_to_json :: "keyframe \<Rightarrow> string \<Rightarrow> int \<Rightarrow> string \<Rightarrow> json" where
  "keyframe_to_json kf dp ai g =
     JObj [(''data_path'', JStr dp),
           (''group'', JStr g),
           (''array_index'', JInt ai),
           (''amplitude'', JFloat (amplitude kf)),
           (''back'', JFloat (back kf)),
           (''co'', vec_json (co kf)),
           (''easing'', JStr (easing kf)),
           (''handle_left'', vec_json (handle_left kf)),
           (''handle_left_type'', JStr (handle_left_type kf)),
           (''handle_right'', vec_json (handle_right kf)),
           (''handle_right_type'', JStr (handle_right_type kf)),
           (''interpolation'', JStr (interpolation kf)),
           (''period'', JFloat (period kf)),
           (''type'', JStr (kf_type kf))]"

text \<open>\<^verbatim>\<open>int(f)\<close> on a float truncates towards zero.\<close>

definition py_trunc :: "real \<Rightarrow> int" where
  "py_trunc r = (if 0 \<le> r then \<lfloor>r\<rfloor> else \<lceil>r\<rceil>)"

text \<open>
  Lines 94 to 108 for one channel of the group named \<open>g\<close>: a channel without keyframe
  points is converted to keyframes over its range, its records are taken, and it is
  converted back over the range it has then. There is no handler around these steps: an
  exception from the host ends the export with the channel as it is at that point.
\<close>

definition channel_records :: "string \<Rightarrow> fcurve \<Rightarrow> json list" where
  "channel_records g c =
     map (\<lambda>kf. keyframe_to_json kf (data_path c) (array_index c) g) (keyframe_points c)"

definition export_channel :: "host \<Rightarrow> string \<Rightarrow> fcurve \<Rightarrow> fcurve \<times> (error + json list)" where
  "export_channel h g c =
     (if keyframe_points c = [] then
        (case convert_to_keyframes h (py_trunc (fst (frange h c))) (py_trunc (snd (frange h c))) c of
           Inl e \<Rightarrow> (c, Inl e)
         | Inr c1 \<Rightarrow>
             (case convert_to_samples h (py_trunc (fst (frange h c1))) (py_trunc (snd (frange h c1))) c1 of
                Inl e \<Rightarrow> (c1, Inl e)
              | Inr c2 \<Rightarrow> (c2, Inr (channel_records g c1))))
      else (c, Inr (channel_records g c)))"

text \<open>
  The inner loop over the channels of one group, and the outer loop over the groups. A
  group's channels are the channels of the action that belong to it; group names are
  unique within an action.
\<close>

fun export_group :: "host \<Rightarrow> string \<Rightarrow> fcurve list \<Rightarrow> fcurve list \<times> (error + json list)" where
  "export_group h g [] = ([], Inr [])"
| "export_group h g (c # cs) =
     (if group c = Some g then
        (case export_channel h g c of
           (c', Inl e) \<Rightarrow> (c' # cs, Inl e)
         | (c', Inr recs) \<Rightarrow>
             (case export_group h g cs of
                (cs', Inl e) \<Rightarrow> (c' # cs', Inl e)
              | (cs', Inr recs2) \<Rightarrow> (c' # cs', Inr (recs @ recs2))))
      else (case export_group h g cs of (cs', r) \<Rightarrow> (c # cs', r)))"

fun export_groups :: "host \<Rightarrow> string list \<Rightarrow> fcurve list \<Rightarrow> fcurve list \<times> (error + json list)" where
  "export_groups h [] cs = (cs, Inr [])"
| "export_groups h (g # gs) cs =
     (case export_group h g cs of
        (cs1, Inl e) \<Rightarrow> (cs1, Inl e)
      | (cs1, Inr recs) \<Rightarrow>
          (case export_groups h gs cs1 of
             (cs2, Inl e) \<Rightarrow> (cs2, Inl e)
           | (cs2, Inr recs2) \<Rightarrow> (cs2, Inr (recs @ recs2))))"

text \<open>
  \<^verbatim>\<open>ANIMIO_OT_fcurve_exporter.execute\<close>. Without animation data or action it logs an
  error and returns with no file written (\<open>Inr None\<close>). Otherwise it collects the
  records, then opens the file (\<open>writable\<close> says whether that succeeds) and writes the
  document.
\<close>

definition action_document :: "string \<Rightarrow> json list \<Rightarrow> json" where
  "action_document n kfs = JObj [(''name'', JStr n), (''keyframes'', JArr kfs)]"

definition exporter_execute :: "host \<Rightarrow> bool \<Rightarrow> obj \<Rightarrow> obj \<times> (error + file_content option)" where
  "exporter_execute h writable ob =
     (case animation_data ob of
        None \<Rightarrow> (ob, Inr None)
      | Some ad \<Rightarrow>
          (case action ad of
             None \<Rightarrow> (ob, Inr None)
           | Some a \<Rightarrow>
               (case export_groups h (groups a) (fcurves a) of
                  (cs, r) \<Rightarrow>
                    (ob\<lparr>animation_data := Some (ad\<lparr>action := Some (a\<lparr>fcurves := cs\<rparr>)\<rparr>)\<rparr>,
                     case r of
                       Inl e \<Rightarrow> Inl e
                     | Inr kfs \<Rightarrow>
                         if writable then Inr (Some (JsonText (action_document (name a) kfs)))
                         else Inl IOError))))"

section \<open>A host and a document for concrete instances\<close>

text \<open>
  A host to evaluate the operations on: the tags are those of the host's Python
  interface, a new point gets handles one frame to either side, automatic clamped
  handles, Bezier interpolation and the default easing parameters, and \<^verbatim>\<open>float\<close> knows
  a few decimal strings. A conversion refuses a range that is empty (\<open>start \<ge> stop\<close>)
  with RuntimeError and takes the points from \<open>start\<close> up to but not including \<open>stop\<close>.
\<close>

definition example_enum :: "string \<Rightarrow> string \<Rightarrow> bool" where
  "example_enum prop s =
     (if prop = ''type'' then s \<in> set [''KEYFRAME'', ''BREAKDOWN'', ''MOVING_HOLD'', ''EXTREME'', ''JITTER'']
      else if prop = ''easing'' then s \<in> set [''AUTO'', ''EASE_IN'', ''EASE_OUT'', ''EASE_IN_OUT'']
      else if prop = ''interpolation'' then
        s \<in> set [''CONSTANT'', ''LINEAR'', ''BEZIER'', ''SINE'', ''QUAD'', ''CUBIC'', ''QUART'',
                 ''QUINT'', ''EXPO'', ''CIRC'', ''BACK'', ''BOUNCE'', ''ELASTIC'']
      else s \<in> set [''FREE'', ''ALIGNED'', ''VECTOR'', ''AUTO'', ''AUTO_CLAMPED''])"

definition example_fresh :: "keyframe list \<Rightarrow> real \<Rightarrow> real \<Rightarrow> keyframe" where
  "example_fresh ps t v =
     \<lparr>co = (t, v), handle_left = (t - 1, v), handle_left_type = ''AUTO_CLAMPED'',
      handle_right = (t + 1, v), handle_right_type = ''AUTO_CLAMPED'',
      interpolation = ''BEZIER'', easing = ''AUTO'', amplitude = 8 / 10,
      back = 170158 / 100000, period = 41 / 10, kf_type = ''KEYFRAME''\<rparr>"

definition example_range :: "fcurve \<Rightarrow> real \<times> real" where
  "example_range c =
     (if keyframe_points c \<noteq> [] then (time (hd (keyframe_points c)), time (last (keyframe_points c)))
      else if sampled_points c \<noteq> [] then (fst (hd (sampled_points c)), fst (last (sampled_points c)))
      else (0, 0))"

definition example_to_keyframes :: "int \<Rightarrow> int \<Rightarrow> fcurve \<Rightarrow> error + fcurve" where
  "example_to_keyframes start stop c =
     (if start \<ge> stop then Inl RuntimeError
      else if keyframe_points c \<noteq> [] \<or> sampled_points c = [] then Inr c
      else Inr (c\<lparr>keyframe_points :=
                     map (\<lambda>s. example_fresh [] (fst s) (snd s))
                       (filter (\<lambda>s. of_int start \<le> fst s \<and> fst s < of_int stop) (sampled_points c)),
                   sampled_points := []\<rparr>))"

definition example_to_samples :: "int \<Rightarrow> int \<Rightarrow> fcurve \<Rightarrow> error + fcurve" where
  "example_to_samples start stop c =
     (if start \<ge> stop then Inl RuntimeError
      else if keyframe_points c = [] then Inr c
      else Inr (c\<lparr>sampled_points :=
                     map co (filter (\<lambda>p. of_int start \<le> time p \<and> time p < of_int stop) (keyframe_points c)),
                   keyframe_points := []\<rparr>))"

definition example_host :: host where
  "example_host =
     \<lparr>float_of_str = map_of [(''0'', 0), (''1'', 1), (''0.5'', 1 / 2), (''0.1'', 1 / 10)],
      is_enum = example_enum,
      fresh_point = example_fresh,
      frange = example_range,
      convert_to_keyframes = example_to_keyframes,
      convert_to_samples = example_to_samples\<rparr>"

text \<open>The record of the spec's example document, with the time and the value as parameters.\<close>

definition example_record :: "string \<Rightarrow> int \<Rightarrow> real \<Rightarrow> real \<Rightarrow> json" where
  "example_record dp ai t v =
     JObj [(''data_path'', JStr dp), (''array_index'', JInt ai),
           (''group'', JStr ''Object Transforms''),
           (''co'', JArr [JFloat t, JFloat v]),
           (''handle_left'', JArr [JFloat (1 / 2), JFloat 0]),
           (''handle_left_type'', JStr ''FREE''),
           (''handle_right'', JArr [JFloat (3 / 2), JFloat 0]),
           (''handle_right_type'', JStr ''FREE''),
           (''interpolation'', JStr ''BEZIER''), (''easing'', JStr ''AUTO''),
           (''amplitude'', JFloat 0), (''back'', JFloat (170158 / 100000)),
           (''period'', JFloat (1 / 10)), (''type'', JStr ''KEYFRAME'')]"

text \<open>The point that record describes.\<close>

definition example_point :: "real \<Rightarrow> real \<Rightarrow> keyframe" where
  "example_point t v =
     \<lparr>co = (t, v), handle_left = (1 / 2, 0), handle_left_type = ''FREE'',
      handle_right = (3 / 2, 0), handle_right_type = ''FREE'',
      interpolation = ''BEZIER'', easing = ''AUTO'', amplitude = 0,
      back = 170158 / 100000, period = 1 / 10, kf_type = ''KEYFRAME''\<rparr>"

text \<open>
  A container with two channels: one in a group, holding two points, and one that
  belongs to no group, holding one point.
\<close>

definition example_action :: action where
  "example_action =
     \<lparr>name = ''Action'', groups = [''Object Transforms''],
      fcurves =
        [\<lparr>data_path = ''location'', array_index = 0, group = Some ''Object Transforms'',
          keyframe_points = [example_point 1 0, example_point 3 2], sampled_points = []\<rparr>,
         \<lparr>data_path = ''scale'', array_index = 2, group = None,
          keyframe_points = [example_point 2 1], sampled_points = []\<rparr>]\<rparr>"

text \<open>Two records for one channel and one for another.\<close>

definition example_keyframes :: "json list" where
  "example_keyframes =
     [example_record ''location'' 0 5 1, example_record ''scale'' 2 4 0,
      example_record ''location'' 0 4 2]"

section \<open>Sequences of import operations\<close>

text \<open>At most one channel per key.\<close>

definition unique_keys :: "action \<Rightarrow> bool" where
  "unique_keys a = distinct (map fkey (fcurves a))"

text \<open>
  A call of \<^verbatim>\<open>insert_keyframes\<close> or of \<^verbatim>\<open>touch_fcurve\<close> with its arguments. A call that
  raises leaves the container as it is at that point, and the next call works on that.
\<close>

datatype import_op =
    InsertKeyframes json "key set option" bool
  | TouchFcurve json json bool

fun apply_op :: "host \<Rightarrow> import_op \<Rightarrow> action \<Rightarrow> action" where
  "apply_op h (InsertKeyframes keyframe_data filt replace_curve) a =
     fst (insert_keyframes h a keyframe_data filt replace_curve)"
| "apply_op h (TouchFcurve dp ai replace) a = fst (touch_fcurve a dp ai replace)"

fun apply_ops :: "host \<Rightarrow> import_op list \<Rightarrow> action \<Rightarrow> action" where
  "apply_ops h [] a = a"
| "apply_ops h (op # ops) a = apply_ops h ops (apply_op h op a)"

section \<open>Records the filter skips\<close>

text \<open>
  A record takes the \<^verbatim>\<open>continue\<close> of line 177 when both of its key fields can be read
  and the test of line 175 is true.
\<close>

definition record_skipped :: "key set option \<Rightarrow> json \<Rightarrow> bool" where
  "record_skipped filt kf =
     (case py_getitem kf ''data_path'' of
        Inl e \<Rightarrow> False
      | Inr dp \<Rightarrow>
          (case py_getitem kf ''array_index'' of
             Inl e \<Rightarrow> False
           | Inr ai \<Rightarrow> filter_skips filt dp ai = Inr True))"

text \<open>The channels of a container whose key is outside a set, in their order.\<close>

definition channels_outside :: "key set \<Rightarrow> action \<Rightarrow> fcurve list" where
  "channels_outside F a = filter (\<lambda>c. fkey c \<notin> F) (fcurves a)"

section \<open>The exceptions of an import pass\<close>

text \<open>
  The exceptions that \<^verbatim>\<open>insert_keyframes\<close> can raise: a missing key, a value of the wrong
  type, the host refusing a second channel for a key, the two ValueErrors of \<^verbatim>\<open>float\<close>
  and of a vector assignment, and the OverflowError of \<^verbatim>\<open>float\<close>.
\<close>

fun import_error :: "error \<Rightarrow> bool" where
  "import_error (KeyError f) = True"
| "import_error TypeError = True"
| "import_error RuntimeError = True"
| "import_error OverflowError = True"
| "import_error (ValueError m) =
     (m = ''could not convert string to float'' \<or> m = ''sequence should contain 2 items'')"
| "import_error e = False"

text \<open>An object with no animation data, and one whose active action is the example.\<close>

definition bare_object :: obj where
  "bare_object = \<lparr>animation_data = None\<rparr>"

definition example_object :: obj where
  "example_object = \<lparr>animation_data = Some \<lparr>action = Some example_action\<rparr>\<rparr>"

section \<open>Records that lack a field\<close>

text \<open>
  The record format has the fourteen fields that \<^verbatim>\<open>keyframe_to_json\<close> writes (lines 45 to
  60). The importer reads thirteen of them, here in the order it reads them (lines 172
  to 201); it never reads \<^verbatim>\<open>group\<close>. A record lacks a field when reading it raises.
\<close>

definition read_fields :: "string list" where
  "read_fields =
     [''data_path'', ''array_index'', ''co'', ''type'', ''amplitude'', ''back'', ''easing'',
      ''handle_left'', ''handle_left_type'', ''handle_right'', ''handle_right_type'',
      ''interpolation'', ''period'']"

definition record_fields :: "string list" where
  "record_fields = ''group'' # read_fields"

definition lacks_read_field :: "json \<Rightarrow> bool" where
  "lacks_read_field kf = (filter (\<lambda>f. isl (py_getitem kf f)) read_fields \<noteq> [])"

text \<open>A record with one field taken out: the dict without that key.\<close>

fun without_field :: "string \<Rightarrow> json \<Rightarrow> json" where
  "without_field f (JObj kvs) = JObj (filter (\<lambda>kv. fst kv \<noteq> f) kvs)"
| "without_field f j = j"

text \<open>A record without its \<^verbatim>\<open>data_path\<close>.\<close>

definition pathless_record :: json where
  "pathless_record = JObj [(''array_index'', JInt 0), (''co'', JArr [JFloat 1, JFloat 0])]"

section \<open>Well-formed records and what a pass does with them\<close>

text \<open>
  The record format of the spec: a dict with a string \<^verbatim>\<open>data_path\<close>, an integer
  \<^verbatim>\<open>array_index\<close>, pairs of numbers for \<^verbatim>\<open>co\<close> and the two handles, numbers for
  \<^verbatim>\<open>amplitude\<close>, \<^verbatim>\<open>back\<close> and \<^verbatim>\<open>period\<close>, and a tag of the host for each enumerated
  field. A number is a float or an integer within the range of a float.
  \<open>decode_record h kf\<close> is the key and the control point such a record describes, and
  \<open>None\<close> for anything else. The field \<^verbatim>\<open>group\<close> plays no part in it.
\<close>

definition field :: "json \<Rightarrow> string \<Rightarrow> json option" where
  "field kf f = (case py_getitem kf f of Inl e \<Rightarrow> None | Inr j \<Rightarrow> Some j)"

fun str_of :: "json \<Rightarrow> string option" where
  "str_of (JStr s) = Some s"
| "str_of j = None"

fun int_of :: "json \<Rightarrow> int option" where
  "int_of (JInt n) = Some n"
| "int_of j = None"

fun number_of :: "json \<Rightarrow> real option" where
  "number_of (JInt n) = (if in_double_range n then Some (of_int n) else None)"
| "number_of (JFloat r) = Some r"
| "number_of j = None"

fun pair_of :: "json \<Rightarrow> (real \<times> real) option" where
  "pair_of (JArr [x, y]) =
     (case number_of x of
        None \<Rightarrow> None
      | Some a \<Rightarrow> (case number_of y of None \<Rightarrow> None | Some b \<Rightarrow> Some (a, b)))"
| "pair_of j = None"

definition tag_of :: "host \<Rightarrow> string \<Rightarrow> json \<Rightarrow> string option" where
  "tag_of h prop j =
     (case str_of j of None \<Rightarrow> None | Some s \<Rightarrow> if is_enum h prop s then Some s else None)"

definition decode_record :: "host \<Rightarrow> json \<Rightarrow> (key \<times> keyframe) option" where
  "decode_record h kf =
     Option.bind (Option.bind (field kf ''data_path'') str_of) (\<lambda>dp.
     Option.bind (Option.bind (field kf ''array_index'') int_of) (\<lambda>ai.
     Option.bind (Option.bind (field kf ''co'') pair_of) (\<lambda>c.
     Option.bind (Option.bind (field kf ''type'') (tag_of h ''type'')) (\<lambda>ty.
     Option.bind (Option.bind (field kf ''amplitude'') number_of) (\<lambda>am.
     Option.bind (Option.bind (field kf ''back'') number_of) (\<lambda>ba.
     Option.bind (Option.bind (field kf ''easing'') (tag_of h ''easing'')) (\<lambda>ea.
     Option.bind (Option.bind (field kf ''handle_left'') pair_of) (\<lambda>hl.
     Option.bind (Option.bind (field kf ''handle_left_type'') (tag_of h ''handle_left_type'')) (\<lambda>hlt.
     Option.bind (Option.bind (field kf ''handle_right'') pair_of) (\<lambda>hr.
     Option.bind (Option.bind (field kf ''handle_right_type'') (tag_of h ''handle_right_type'')) (\<lambda>hrt.
     Option.bind (Option.bind (field kf ''interpolation'') (tag_of h ''interpolation'')) (\<lambda>ip.
     Option.bind (Option.bind (field kf ''period'') number_of) (\<lambda>pe.
     Some ((dp, ai),
           \<lparr>co = c, handle_left = hl, handle_left_type = hlt, handle_right = hr,
            handle_right_type = hrt, interpolation = ip, easing = ea, amplitude = am,
            back = ba, period = pe, kf_type = ty\<rparr>))))))))))))))"

text \<open>The decoded records of a document, when every record is well formed.\<close>

fun decode_all :: "host \<Rightarrow> json list \<Rightarrow> (key \<times> keyframe) list option" where
  "decode_all h [] = Some []"
| "decode_all h (kf # kfs) =
     (case decode_record h kf of
        None \<Rightarrow> None
      | Some r \<Rightarrow> (case decode_all h kfs of None \<Rightarrow> None | Some rs \<Rightarrow> Some (r # rs)))"

text \<open>The points a list of decoded records holds for one key, in the order of the list.\<close>

definition points_for :: "key \<Rightarrow> (key \<times> keyframe) list \<Rightarrow> keyframe list" where
  "points_for k recs = map snd (filter (\<lambda>r. fst r = k) recs)"

text \<open>
  What inserting a well-formed record's point does to the points of its channel: the
  point goes to its place by time; a point already at that time is replaced by it but
  keeps its own type tag.
\<close>

definition upsert :: "keyframe \<Rightarrow> keyframe list \<Rightarrow> keyframe list" where
  "upsert pt ps =
     (let before = takeWhile (\<lambda>p. time p < time pt) ps;
          rest = dropWhile (\<lambda>p. time p < time pt) ps
      in case rest of
           [] \<Rightarrow> before @ [pt]
         | q # qs \<Rightarrow>
             if time q = time pt then before @ pt\<lparr>kf_type := kf_type q\<rparr> # qs
             else before @ pt # rest)"

text \<open>Points in strictly increasing order of time.\<close>

definition time_sorted :: "keyframe list \<Rightarrow> bool" where
  "time_sorted ps = sorted_wrt (\<lambda>p q. time p < time q) ps"


text \<open>Two records for one channel at the same time, with different values.\<close>

definition same_time_keyframes :: "json list" where
  "same_time_keyframes =
     [example_record ''location'' 0 5 1, example_record ''location'' 0 5 2]"

text \<open>A record with one field set to another value.\<close>

fun with_field :: "string \<Rightarrow> json \<Rightarrow> json \<Rightarrow> json" where
  "with_field f v (JObj kvs) = JObj ((f, v) # kvs)"
| "with_field f v j = j"

section \<open>Storage form\<close>

text \<open>
  The exporter takes a channel without keyframe points to be in sampled storage (line
  96). \<open>samples_restore h\<close> says of a host that a channel its \<^verbatim>\<open>convert_to_samples\<close> returns
  has no keyframe points.
\<close>

definition sampled :: "fcurve \<Rightarrow> bool" where
  "sampled c = (keyframe_points c = [])"

definition samples_restore :: "host \<Rightarrow> bool" where
  "samples_restore h =
     (\<forall>start stop c c'. convert_to_samples h start stop c = Inr c' \<longrightarrow> sampled c')"

text \<open>
  A channel in a group, in sampled storage with a sample of value 0 at each of the given
  frames, and the same channel in keyframe storage with the points the example host
  makes of such samples. An object whose action holds one channel.
\<close>

definition sampled_channel :: "real list \<Rightarrow> fcurve" where
  "sampled_channel frames =
     \<lparr>data_path = ''location'', array_index = 0, group = Some ''Object Transforms'',
      keyframe_points = [], sampled_points = map (\<lambda>f. (f, 0)) frames\<rparr>"

definition keyed_channel :: "real list \<Rightarrow> fcurve" where
  "keyed_channel frames =
     \<lparr>data_path = ''location'', array_index = 0, group = Some ''Object Transforms'',
      keyframe_points = map (\<lambda>f. example_fresh [] f 0) frames, sampled_points = []\<rparr>"

definition baked_object :: "fcurve \<Rightarrow> obj" where
  "baked_object c =
     \<lparr>animation_data = Some \<lparr>action = Some
        \<lparr>name = ''Baked'', groups = [''Object Transforms''], fcurves = [c]\<rparr>\<rparr>\<rparr>"

section \<open>Containers in keyframe form\<close>






section \<open>Unfolding the definitions on concrete inputs\<close>

lemmas eval_defs =
  insert_keyframes_def insert_keyframe_def insert_point_def touch_fcurve_def fcurves_new_def
  matches_def py_key_def py_in_def filter_skips_def insert_args_def kp_insert_def moved_def
  curve_points_def with_points_def assignments_def float_field_def vec_field_def enum_field_def
  raw_float_field_def example_host_def example_enum_def example_fresh_def example_record_def
  example_point_def example_action_def example_keyframes_def new_action_def new_fcurve_def
  fkey_def time_def channels_outside_def in_double_range_def double_limit_def

section \<open>The empty filter\<close>

lemma filter_skips_empty: "filter_skips (Some {}) dp ai = filter_skips None dp ai"
  by (simp add: filter_skips_def)

lemma insert_keyframe_empty_filter:
  "insert_keyframe h (Some {}) rc kf st = insert_keyframe h None rc kf st"
  by (simp only: insert_keyframe_def filter_skips_empty)

lemma loop_empty_filter:
  "insert_keyframes_loop h (Some {}) rc kfs st = insert_keyframes_loop h None rc kfs st"
  by (induction kfs arbitrary: st) (simp_all add: insert_keyframe_empty_filter)

section \<open>Key uniqueness\<close>

lemma distinct_map_remove1:
  "distinct (map f xs) \<Longrightarrow> distinct (map f (remove1 x xs))"
  by (induction xs) (auto dest: set_remove1_subset [THEN subsetD])

lemma fkey_new: "fkey (new_fcurve p i) = (p, i)"
  by (simp add: fkey_def new_fcurve_def)

lemma fcurves_new_unique:
  "fcurves_new dp ai a = (a1, r) \<Longrightarrow> unique_keys a \<Longrightarrow> unique_keys a1"
  by (auto simp: fcurves_new_def unique_keys_def fkey_new image_iff
      split: json.splits option.splits if_splits)

lemma touch_fcurve_unique:
  "touch_fcurve a dp ai replace = (a1, r) \<Longrightarrow> unique_keys a \<Longrightarrow> unique_keys a1"
proof -
  assume t: "touch_fcurve a dp ai replace = (a1, r)" and u: "unique_keys a"
  have "unique_keys (a\<lparr>fcurves := remove1 c (fcurves a)\<rparr>)" for c
    using u by (simp add: unique_keys_def distinct_map_remove1)
  then show ?thesis
    using t u by (auto simp: touch_fcurve_def split: option.splits if_splits dest: fcurves_new_unique)
qed

lemma map_fkey_map_first:
  "map fkey (map_first P (\<lambda>c. c\<lparr>keyframe_points := ps\<rparr>) cs) = map fkey cs"
  by (induction cs) (auto simp: fkey_def)

lemma with_points_keys: "map fkey (fcurves (with_points k ps a)) = map fkey (fcurves a)"
  by (simp add: with_points_def map_fkey_map_first)

lemma insert_point_keys:
  "insert_point h kf k a = (a1, r) \<Longrightarrow> map fkey (fcurves a1) = map fkey (fcurves a)"
  by (auto simp: insert_point_def with_points_keys split: sum.splits prod.splits)

lemma insert_point_unique:
  "insert_point h kf k a = (a1, r) \<Longrightarrow> unique_keys a \<Longrightarrow> unique_keys a1"
  by (simp add: unique_keys_def insert_point_keys)

lemma insert_keyframe_unique:
  "insert_keyframe h filt rc kf (a, R) = ((a1, R1), r) \<Longrightarrow> unique_keys a \<Longrightarrow> unique_keys a1"
  unfolding insert_keyframe_def
  by (auto split: sum.splits prod.splits bool.splits
      dest: touch_fcurve_unique insert_point_unique)

lemma loop_unique:
  "insert_keyframes_loop h filt rc kfs (a, R) = ((a1, R1), r) \<Longrightarrow> unique_keys a \<Longrightarrow> unique_keys a1"
proof (induction kfs arbitrary: a R)
  case Nil
  then show ?case by simp
next
  case (Cons kf kfs)
  obtain a2 R2 r2 where s: "insert_keyframe h filt rc kf (a, R) = ((a2, R2), r2)"
    by (metis surj_pair)
  have u: "unique_keys a2"
    using s Cons.prems(2) by (rule insert_keyframe_unique)
  show ?case
  proof (cases r2)
    case (Inl e)
    then show ?thesis using Cons.prems(1) s u by simp
  next
    case (Inr x)
    then show ?thesis using Cons.prems(1) s u Cons.IH by simp
  qed
qed

lemma insert_keyframes_unique:
  "insert_keyframes h a kd filt rc = (a1, r) \<Longrightarrow> unique_keys a \<Longrightarrow> unique_keys a1"
  by (auto simp: insert_keyframes_def split: sum.splits prod.splits dest: loop_unique)

text \<open>
  C4: a container with at most one channel per key still has at most one channel per key
  after any sequence of calls of \<^verbatim>\<open>insert_keyframes\<close> and \<^verbatim>\<open>touch_fcurve\<close>, whatever their
  arguments and whether or not they raise.
\<close>

theorem key_uniqueness_preserved: "unique_keys a \<Longrightarrow> unique_keys (apply_ops h ops a)"
proof (induction ops arbitrary: a)
  case Nil
  then show ?case by simp
next
  case (Cons op ops)
  have "unique_keys (apply_op h op a)"
  proof (cases op)
    case (InsertKeyframes kd filt rc)
    then show ?thesis
      using Cons.prems insert_keyframes_unique [of h a kd filt rc]
      by (cases "insert_keyframes h a kd filt rc") simp
  next
    case (TouchFcurve dp ai replace)
    then show ?thesis
      using Cons.prems touch_fcurve_unique [of a dp ai replace]
      by (cases "touch_fcurve a dp ai replace") simp
  qed
  then show ?case by (simp add: Cons.IH)
qed

theorem key_uniqueness_preserved_witness:
  "unique_keys example_action \<and>
   unique_keys
     (apply_ops example_host
        [InsertKeyframes (JArr [example_record ''location'' 0 1 0, example_record ''scale'' 2 1 0]) None True,
         TouchFcurve (JStr ''location'') (JInt 0) True,
         InsertKeyframes (JArr [example_record ''location'' 0 2 5]) (Some {(''location'', 0)}) False]
        example_action)"
proof -
  have u: "unique_keys example_action"
    by (simp add: unique_keys_def example_action_def fkey_def)
  show ?thesis
    by (intro conjI u key_uniqueness_preserved [OF u])
qed

section \<open>The filter\<close>

lemma matches_key: "matches dp ai c \<Longrightarrow> py_key dp ai = Some (fkey c)"
  by (simp add: matches_def py_key_def fkey_def)

lemma find_matches_key: "find (matches dp ai) cs = Some c \<Longrightarrow> py_key dp ai = Some (fkey c)"
  by (auto simp: find_Some_iff intro: matches_key)

lemma host_int_py_int: "host_int ai = Some i \<Longrightarrow> py_int ai = Some i"
  by (cases ai) auto

lemma fcurves_new_cases:
  "fcurves_new dp ai a = (a1, r) \<Longrightarrow>
   (a1 = a \<and> (r = Inl TypeError \<or> r = Inl RuntimeError)) \<or>
   (\<exists>k. r = Inr k \<and> py_key dp ai = Some k \<and> k \<notin> fkey ` set (fcurves a) \<and>
        a1 = a\<lparr>fcurves := fcurves a @ [new_fcurve (fst k) (snd k)]\<rparr>)"
  by (auto simp: fcurves_new_def py_key_def host_int_py_int split: json.splits option.splits if_splits)

lemma filter_remove1_key:
  "fkey c \<in> F \<Longrightarrow>
   filter (\<lambda>x. fkey x \<notin> F) (remove1 c cs) = filter (\<lambda>x. fkey x \<notin> F) cs"
  by (induction cs) auto

lemma touch_fcurve_outside:
  assumes "touch_fcurve a dp ai replace = (a1, r)" and "py_key dp ai = Some k" and "k \<in> F"
  shows "channels_outside F a1 = channels_outside F a \<and> name a1 = name a \<and> groups a1 = groups a \<and>
         (\<forall>k'. r = Inr k' \<longrightarrow> k' = k)"
proof (cases "find (matches dp ai) (fcurves a)")
  case None
  then have "fcurves_new dp ai a = (a1, r)"
    using assms(1) by (simp add: touch_fcurve_def)
  from fcurves_new_cases [OF this] show ?thesis
    using assms(2,3) by (auto simp: channels_outside_def fkey_new)
next
  case (Some c)
  then have kc: "fkey c = k"
    using find_matches_key assms(2) by fastforce
  show ?thesis
  proof (cases replace)
    case False
    then show ?thesis using assms(1) Some kc by (auto simp: touch_fcurve_def)
  next
    case True
    let ?a = "a\<lparr>fcurves := remove1 c (fcurves a)\<rparr>"
    have "fcurves_new dp ai ?a = (a1, r)"
      using assms(1) Some True by (simp add: touch_fcurve_def)
    from fcurves_new_cases [OF this] show ?thesis
      using assms(2,3) kc filter_remove1_key [of c F "fcurves a"]
      by (auto simp: channels_outside_def fkey_new)
  qed
qed

lemma touch_fcurve_no_key:
  "py_key dp ai = None \<Longrightarrow> touch_fcurve a dp ai replace = (a, Inl TypeError)"
proof -
  assume n: "py_key dp ai = None"
  have f: "find (matches dp ai) (fcurves a) = None"
    using n find_matches_key by (cases "find (matches dp ai) (fcurves a)") fastforce+
  have "host_int ai = None" if "py_int ai = None"
    using that by (cases ai) auto
  then have "fcurves_new dp ai a = (a, Inl TypeError)"
    using n by (auto simp: fcurves_new_def py_key_def split: json.splits option.splits)
  then show ?thesis by (simp add: touch_fcurve_def f)
qed

lemma map_first_outside:
  "(\<And>c. P c \<Longrightarrow> fkey c \<in> F \<and> fkey (f c) \<in> F) \<Longrightarrow>
   filter (\<lambda>c. fkey c \<notin> F) (map_first P f cs) = filter (\<lambda>c. fkey c \<notin> F) cs"
  by (induction cs) auto

lemma with_points_outside:
  "k \<in> F \<Longrightarrow> channels_outside F (with_points k ps a) = channels_outside F a"
proof -
  assume k: "k \<in> F"
  have "filter (\<lambda>c. fkey c \<notin> F) (map_first (\<lambda>c. fkey c = k) (\<lambda>c. c\<lparr>keyframe_points := ps\<rparr>) cs) =
        filter (\<lambda>c. fkey c \<notin> F) cs" for cs
    by (rule map_first_outside) (simp add: k fkey_def)
  then show ?thesis
    by (simp add: channels_outside_def with_points_def)
qed

lemma with_points_name: "name (with_points k ps a) = name a \<and> groups (with_points k ps a) = groups a"
  by (simp add: with_points_def)

lemma insert_point_outside:
  "insert_point h kf k a = (a1, r) \<Longrightarrow> k \<in> F \<Longrightarrow>
   channels_outside F a1 = channels_outside F a \<and> name a1 = name a \<and> groups a1 = groups a"
  by (auto simp: insert_point_def with_points_outside with_points_name split: sum.splits prod.splits)


lemma filter_skips_False:
  "F \<noteq> {} \<Longrightarrow> filter_skips (Some F) dp ai = Inr False \<Longrightarrow> \<exists>k. py_key dp ai = Some k \<and> k \<in> F"
  by (auto simp: filter_skips_def py_in_def split: sum.splits if_splits option.splits)

lemma insert_keyframe_cases:
  assumes "insert_keyframe h filt rc kf (a, R) = ((a1, R1), r)"
  shows "(a1 = a \<and> R1 = R \<and> (record_skipped filt kf \<or> (\<exists>e. r = Inl e))) \<or>
         (\<exists>dp ai seen.
            py_getitem kf ''data_path'' = Inr dp \<and> py_getitem kf ''array_index'' = Inr ai \<and>
            filter_skips filt dp ai = Inr False \<and> py_in dp ai R = Inr seen \<and>
            ((\<exists>e. touch_fcurve a dp ai (if \<not> seen then rc else False) = (a1, Inl e) \<and>
                  R1 = R \<and> r = Inl e) \<or>
             (\<exists>a2 k. touch_fcurve a dp ai (if \<not> seen then rc else False) = (a2, Inr k) \<and>
                  insert_point h kf k a2 = (a1, r) \<and>
                  R1 = (if rc then insert k R else R))))"
proof (cases "py_getitem kf ''data_path''")
  case (Inl e)
  then show ?thesis using assms by (auto simp: insert_keyframe_def)
next
  case dp: (Inr dp)
  show ?thesis
  proof (cases "py_getitem kf ''array_index''")
    case (Inl e)
    then show ?thesis using assms dp by (auto simp: insert_keyframe_def)
  next
    case ai: (Inr ai)
    show ?thesis
    proof (cases "filter_skips filt dp ai")
      case (Inl e)
      then show ?thesis using assms dp ai by (auto simp: insert_keyframe_def)
    next
      case sk: (Inr skip)
      show ?thesis
      proof (cases skip)
        case True
        then show ?thesis
          using assms dp ai sk by (auto simp: insert_keyframe_def record_skipped_def)
      next
        case False
        show ?thesis
        proof (cases "py_in dp ai R")
          case (Inl e)
          then show ?thesis using assms dp ai sk False by (auto simp: insert_keyframe_def)
        next
          case seen: (Inr seen)
          obtain a2 r2 where t: "touch_fcurve a dp ai (if \<not> seen then rc else False) = (a2, r2)"
            by (metis surj_pair)
          show ?thesis
          proof (cases r2)
            case (Inl e)
            then show ?thesis
              using assms dp ai sk False seen t by (auto simp: insert_keyframe_def)
          next
            case (Inr k)
            obtain a3 r3 where p: "insert_point h kf k a2 = (a3, r3)"
              by (metis surj_pair)
            have "a1 = a3 \<and> r = r3 \<and> R1 = (if rc then insert k R else R)"
              using assms dp ai sk False seen t Inr p by (simp add: insert_keyframe_def)
            then show ?thesis
              using dp ai sk False seen t Inr p by (cases k) auto
          qed
        qed
      qed
    qed
  qed
qed

lemma insert_keyframe_outside:
  assumes "F \<noteq> {}" and "insert_keyframe h (Some F) rc kf (a, R) = ((a1, R1), r)"
  shows "channels_outside F a1 = channels_outside F a \<and> name a1 = name a \<and>
         groups a1 = groups a \<and> R1 \<subseteq> R \<union> F"
proof -
  consider (same) "a1 = a" "R1 = R"
    | (err) dp ai seen e where "filter_skips (Some F) dp ai = Inr False"
        "touch_fcurve a dp ai (if \<not> seen then rc else False) = (a1, Inl e)" "R1 = R"
    | (ok) dp ai seen a2 k' where "filter_skips (Some F) dp ai = Inr False"
        "touch_fcurve a dp ai (if \<not> seen then rc else False) = (a2, Inr k')"
        "insert_point h kf k' a2 = (a1, r)" "R1 = (if rc then insert k' R else R)"
    using insert_keyframe_cases [OF assms(2)] by blast
  then show ?thesis
  proof cases
    case same
    then show ?thesis by simp
  next
    case err
    obtain k where k: "py_key dp ai = Some k" "k \<in> F"
      using filter_skips_False [OF assms(1) err(1)] by blast
    show ?thesis
      using touch_fcurve_outside [OF err(2) k] err(3) by simp
  next
    case ok
    obtain k where k: "py_key dp ai = Some k" "k \<in> F"
      using filter_skips_False [OF assms(1) ok(1)] by blast
    note fr = touch_fcurve_outside [OF ok(2) k]
    then have kk: "k' = k" by simp
    show ?thesis
      using fr insert_point_outside [OF ok(3) [unfolded kk] k(2)] ok(4) kk k(2) by auto
  qed
qed

lemma insert_keyframe_skipped:
  "record_skipped filt kf \<Longrightarrow> insert_keyframe h filt rc kf st = (st, Inr ())"
  by (cases st) (auto simp: record_skipped_def insert_keyframe_def split: sum.splits)

lemma loop_drop_skipped:
  "insert_keyframes_loop h filt rc (filter (\<lambda>kf. \<not> record_skipped filt kf) kfs) st =
   insert_keyframes_loop h filt rc kfs st"
  by (induction kfs arbitrary: st) (simp_all add: insert_keyframe_skipped)

lemma loop_outside:
  assumes "F \<noteq> {}"
  shows "insert_keyframes_loop h (Some F) rc kfs (a, R) = ((a', R'), r) \<Longrightarrow>
         channels_outside F a' = channels_outside F a \<and> name a' = name a \<and>
         groups a' = groups a \<and> R' \<subseteq> R \<union> F"
proof (induction kfs arbitrary: a R)
  case Nil
  then show ?case by auto
next
  case (Cons kf kfs)
  obtain a1 R1 r1 where s: "insert_keyframe h (Some F) rc kf (a, R) = ((a1, R1), r1)"
    by (metis surj_pair)
  note f1 = insert_keyframe_outside [OF assms s]
  show ?case
  proof (cases r1)
    case (Inl e)
    then show ?thesis using Cons.prems s f1 by auto
  next
    case (Inr u)
    then have "insert_keyframes_loop h (Some F) rc kfs (a1, R1) = ((a', R'), r)"
      using Cons.prems s by simp
    from Cons.IH [OF this] show ?thesis using f1 by auto
  qed
qed

lemma insert_keyframes_outside:
  assumes "F \<noteq> {}"
  shows "channels_outside F (fst (insert_keyframes h a keyframe_data (Some F) rc)) =
         channels_outside F a"
proof (cases "py_iter keyframe_data")
  case (Inl e)
  then show ?thesis by (simp add: insert_keyframes_def)
next
  case (Inr kfs)
  obtain a2 R2 r2 where l: "insert_keyframes_loop h (Some F) rc kfs (a, {}) = ((a2, R2), r2)"
    by (metis surj_pair)
  show ?thesis
    using loop_outside [OF assms l] by (simp add: insert_keyframes_def Inr l)
qed

text \<open>
  C3, amended: for every non-empty filter set \<open>F\<close>, a pass of the loop leaves the channels
  whose key is outside \<open>F\<close> exactly as they were (none created, removed or changed, in
  the same order), adds only keys of \<open>F\<close> to \<^verbatim>\<open>replaced\<close>, and is the same pass as the one
  over the document without the skipped records; so \<^verbatim>\<open>insert_keyframes\<close> with the filter
  \<open>F\<close> leaves the channels outside \<open>F\<close> as they were, whatever the document.
\<close>

theorem filter_exclusivity:
  assumes "F \<noteq> {}" and "insert_keyframes_loop h (Some F) rc kfs (a, R) = ((a', R'), r)"
  shows "channels_outside F a' = channels_outside F a \<and> name a' = name a \<and> groups a' = groups a \<and>
         R' \<subseteq> R \<union> F \<and>
         insert_keyframes_loop h (Some F) rc (filter (\<lambda>kf. \<not> record_skipped (Some F) kf) kfs) (a, R) =
           ((a', R'), r) \<and>
         channels_outside F (fst (insert_keyframes h a keyframe_data (Some F) rc)) =
           channels_outside F a"
  using loop_outside [OF assms] assms(2) insert_keyframes_outside [OF assms(1)]
  by (simp add: loop_drop_skipped)

theorem filter_exclusivity_witness:
  "{(''location'', 0)} \<noteq> ({} :: key set) \<and>
   channels_outside {(''location'', 0)}
     (fst (fst (insert_keyframes_loop example_host (Some {(''location'', 0)}) True
                  example_keyframes (example_action, {})))) =
   [\<lparr>data_path = ''scale'', array_index = 2, group = None,
     keyframe_points = [example_point 2 1], sampled_points = []\<rparr>] \<and>
   snd (fst (insert_keyframes_loop example_host (Some {(''location'', 0)}) True
               example_keyframes (example_action, {}))) \<subseteq> {(''location'', 0)}"
proof -
  let ?F = "{(''location'', 0 :: int)}"
  let ?X = "insert_keyframes_loop example_host (Some ?F) True example_keyframes (example_action, {})"
  have ne: "?F \<noteq> {}" by simp
  have run: "?X = ((fst (fst ?X), snd (fst ?X)), snd ?X)" by simp
  have "channels_outside ?F example_action =
        [\<lparr>data_path = ''scale'', array_index = 2, group = None,
          keyframe_points = [example_point 2 1], sampled_points = []\<rparr>]"
    by (simp add: channels_outside_def example_action_def fkey_def)
  then show ?thesis
    using filter_exclusivity [OF ne run] by simp
qed

text \<open>
  C3 as stated fails for the empty set: with the filter \<open>{}\<close> the record is not skipped,
  and a channel whose key is outside the filter is created.
\<close>

theorem filter_exclusivity_counterexample:
  "\<not> record_skipped (Some {}) (example_record ''location'' 0 1 0) \<and>
   channels_outside {}
     (fst (insert_keyframes example_host (new_action ''Test'')
             (JArr [example_record ''location'' 0 1 0]) (Some {}) True)) \<noteq>
   channels_outside {} (new_action ''Test'')"
  by (simp add: eval_defs record_skipped_def)

section \<open>The exceptions of an import\<close>

lemma py_getitem_error: "py_getitem j f = Inl e \<Longrightarrow> import_error e"
  by (cases j) (auto split: option.splits)

lemma py_iter_error: "py_iter j = Inl e \<Longrightarrow> import_error e"
  by (cases j) auto

lemma py_float_error: "py_float h j = Inl e \<Longrightarrow> import_error e"
  by (cases j) (auto split: option.splits if_splits)

lemma py_floats_error: "py_floats h js = Inl e \<Longrightarrow> import_error e"
  by (induction js) (auto split: sum.splits dest: py_float_error)

lemma host_float_error: "host_float j = Inl e \<Longrightarrow> import_error e"
  by (cases j) (auto split: if_splits)

lemma host_vec2_error: "host_vec2 rs = Inl e \<Longrightarrow> import_error e"
  by (cases rs rule: host_vec2.cases) auto

lemma host_enum_error: "host_enum h prop j = Inl e \<Longrightarrow> import_error e"
  by (cases j) (auto split: if_splits)

lemma float_field_error: "float_field h upd j = Inl e \<Longrightarrow> import_error e"
  by (auto simp: float_field_def split: sum.splits dest: py_float_error)

lemma vec_field_error: "vec_field h upd j = Inl e \<Longrightarrow> import_error e"
  by (auto simp: vec_field_def split: sum.splits
      dest: py_iter_error py_floats_error host_vec2_error)

lemma enum_field_error: "enum_field h prop upd j = Inl e \<Longrightarrow> import_error e"
  by (auto simp: enum_field_def split: sum.splits dest: host_enum_error)

lemma raw_float_field_error: "raw_float_field upd j = Inl e \<Longrightarrow> import_error e"
  by (auto simp: raw_float_field_def split: sum.splits dest: host_float_error)

lemma assign_error:
  "assign fs kf p = (p', Inl e) \<Longrightarrow>
   (\<And>f conv j e'. (f, conv) \<in> set fs \<Longrightarrow> conv j = Inl e' \<Longrightarrow> import_error e') \<Longrightarrow>
   import_error e"
proof (induction fs arbitrary: p)
  case Nil
  then show ?case by simp
next
  case (Cons fc fs)
  obtain f conv where fc: "fc = (f, conv)" by (cases fc)
  show ?case
  proof (cases "py_getitem kf f")
    case (Inl e1)
    then show ?thesis using Cons.prems(1) fc by (auto dest: py_getitem_error)
  next
    case (Inr j)
    show ?thesis
    proof (cases "conv j")
      case (Inl e1)
      then have "import_error e1" using Cons.prems(2) [of f conv j e1] fc by simp
      then show ?thesis using Cons.prems(1) fc Inr Inl by simp
    next
      case r: (Inr upd)
      then have "assign fs kf (upd p) = (p', Inl e)"
        using Cons.prems(1) fc Inr by simp
      then show ?thesis
        using Cons.IH Cons.prems(2) by (meson list.set_intros(2))
    qed
  qed
qed

lemma assignments_error:
  "(f, conv) \<in> set (assignments h) \<Longrightarrow> conv j = Inl e \<Longrightarrow> import_error e"
  by (auto simp: assignments_def
      dest: float_field_error vec_field_error enum_field_error raw_float_field_error)

lemma assign_assignments_error:
  "assign (assignments h) kf p = (p', Inl e) \<Longrightarrow> import_error e"
  by (erule assign_error) (rule assignments_error)

lemma insert_args_error: "insert_args h args tj = Inl e \<Longrightarrow> import_error e"
  by (auto simp: insert_args_def split: list.splits sum.splits
      dest: host_float_error host_enum_error)

lemma insert_point_error: "insert_point h kf k a = (a1, Inl e) \<Longrightarrow> import_error e"
  by (auto simp: insert_point_def split: sum.splits prod.splits
      dest: py_getitem_error py_iter_error insert_args_error assign_assignments_error)

lemma fcurves_new_error: "fcurves_new dp ai a = (a1, Inl e) \<Longrightarrow> import_error e"
  by (auto simp: fcurves_new_def split: json.splits option.splits if_splits)

lemma touch_fcurve_error: "touch_fcurve a dp ai replace = (a1, Inl e) \<Longrightarrow> import_error e"
  by (auto simp: touch_fcurve_def split: option.splits if_splits dest: fcurves_new_error)

lemma py_in_error: "py_in dp ai S = Inl e \<Longrightarrow> import_error e"
  by (auto simp: py_in_def split: if_splits)

lemma filter_skips_error: "filter_skips filt dp ai = Inl e \<Longrightarrow> import_error e"
  by (auto simp: filter_skips_def split: option.splits if_splits sum.splits dest: py_in_error)

lemma insert_keyframe_error:
  "insert_keyframe h filt rc kf st = (st1, Inl e) \<Longrightarrow> import_error e"
  unfolding insert_keyframe_def
  by (auto split: sum.splits prod.splits bool.splits
      dest: py_getitem_error filter_skips_error py_in_error touch_fcurve_error insert_point_error)

lemma loop_error:
  "insert_keyframes_loop h filt rc kfs st = (st1, Inl e) \<Longrightarrow> import_error e"
  by (induction kfs arbitrary: st)
     (auto split: sum.splits prod.splits dest: insert_keyframe_error)

lemma insert_keyframes_error:
  "insert_keyframes h a kd filt rc = (a1, Inl e) \<Longrightarrow> import_error e"
  by (auto simp: insert_keyframes_def split: sum.splits prod.splits
      dest: py_iter_error loop_error)

lemma no_action_not_import_error: "\<not> import_error (ValueError no_action_message)"
  by (simp add: no_action_message_def)

text \<open>
  C7, amended: when the file can be opened and holds JSON text, the curve replacer and the
  curve merger raise the resolver's ValueError exactly when the object has no animation
  data or no active action; whenever they raise it the object is left as it was. A file
  that cannot be opened or parsed raises its own exception first, whatever the object.
\<close>

theorem no_active_action:
  assumes "resolver_execute h replace_curve f ob = (ob', r)"
  shows "(r = Inl (ValueError no_action_message)) =
           ((\<exists>j. f = JsonText j) \<and> active_action ob = None) \<and>
         (r = Inl (ValueError no_action_message) \<longrightarrow> ob' = ob)"
proof (cases f)
  case NoFile
  then show ?thesis using assms by (auto simp: resolver_execute_def)
next
  case NotJson
  then show ?thesis using assms by (auto simp: resolver_execute_def)
next
  case (JsonText j)
  show ?thesis
  proof (cases "active_action ob")
    case None
    then show ?thesis
      using assms JsonText
      by (auto simp: resolver_execute_def active_action_def split: option.splits)
  next
    case (Some a)
    then obtain ad where ad: "animation_data ob = Some ad" "action ad = Some a"
      by (auto simp: active_action_def split: option.splits)
    have "r \<noteq> Inl (ValueError no_action_message)"
    proof (cases "py_getitem j ''keyframes''")
      case (Inl e)
      then have "r = Inl e" using assms JsonText ad by (simp add: resolver_execute_def)
      then show ?thesis
        using py_getitem_error [OF Inl] no_action_not_import_error by auto
    next
      case (Inr kd)
      obtain a1 r1 where i: "insert_keyframes h a kd None replace_curve = (a1, r1)"
        by (metis surj_pair)
      then have "r = r1" using assms JsonText ad Inr by (simp add: resolver_execute_def)
      then show ?thesis
        using insert_keyframes_error [of h a kd None replace_curve a1] i
          no_action_not_import_error by auto
    qed
    then show ?thesis using Some JsonText by simp
  qed
qed

theorem no_active_action_witness:
  "snd (resolver_execute example_host True
          (JsonText (action_document ''Test'' example_keyframes)) bare_object) =
     Inl (ValueError no_action_message) \<and>
   fst (resolver_execute example_host True
          (JsonText (action_document ''Test'' example_keyframes)) bare_object) = bare_object"
proof -
  let ?X = "resolver_execute example_host True
              (JsonText (action_document ''Test'' example_keyframes)) bare_object"
  have run: "?X = (fst ?X, snd ?X)" by simp
  have "active_action bare_object = None"
    by (simp add: active_action_def bare_object_def)
  then show ?thesis
    using no_active_action [OF run] by simp
qed

text \<open>
  C7 as stated fails when the file is not JSON: the object has no action, and the call
  raises JSONDecodeError, not the resolver's ValueError.
\<close>

theorem no_active_action_counterexample:
  "active_action bare_object = None \<and>
   snd (resolver_execute example_host True NotJson bare_object) = Inl JSONDecodeError \<and>
   snd (resolver_execute example_host True NotJson bare_object) \<noteq> Inl (ValueError no_action_message)"
  by (simp add: resolver_execute_def active_action_def bare_object_def)

section \<open>Malformed documents\<close>

lemma assign_ok_fields:
  "assign fs kf p = (p', Inr u) \<Longrightarrow> (f, conv) \<in> set fs \<Longrightarrow> \<not> isl (py_getitem kf f)"
proof (induction fs arbitrary: p)
  case Nil
  then show ?case by simp
next
  case (Cons fc fs)
  obtain f1 conv1 where fc: "fc = (f1, conv1)" by (cases fc)
  from Cons.prems(1) obtain j upd where
    g: "py_getitem kf f1 = Inr j" "conv1 j = Inr upd" "assign fs kf (upd p) = (p', Inr u)"
    by (auto simp: fc split: sum.splits)
  show ?case
  proof (cases "(f, conv) = fc")
    case True
    then show ?thesis using g(1) fc by simp
  next
    case False
    then have "(f, conv) \<in> set fs" using Cons.prems(2) by simp
    then show ?thesis using Cons.IH [OF g(3)] by simp
  qed
qed

lemma read_fields_eq:
  "read_fields = [''data_path'', ''array_index'', ''co'', ''type''] @ map fst (assignments h)"
  by (simp add: read_fields_def assignments_def)

lemma read_fields_split:
  "f \<in> set read_fields \<Longrightarrow>
   f \<in> {''data_path'', ''array_index''} \<or> f \<in> {''co'', ''type''} \<union> fst ` set (assignments h)"
  by (subst (asm) read_fields_eq [of h]) (simp only: set_append set_map set_simps, blast)

lemma insert_point_ok_fields:
  assumes "insert_point h kf k a = (a1, Inr u)"
    and "f \<in> {''co'', ''type''} \<union> fst ` set (assignments h)"
  shows "\<not> isl (py_getitem kf f)"
proof -
  from assms(1) obtain cj tj p0 p1 where
    g: "py_getitem kf ''co'' = Inr cj" "py_getitem kf ''type'' = Inr tj"
       "assign (assignments h) kf p0 = (p1, Inr u)"
    by (auto simp: insert_point_def split: sum.splits prod.splits)
  show ?thesis
    using assms(2) g(1,2) assign_ok_fields [OF g(3)] by auto
qed

lemma not_skipped_None: "\<not> record_skipped None kf"
  by (simp add: record_skipped_def filter_skips_def split: sum.splits)

lemma insert_keyframe_ok_fields:
  assumes "insert_keyframe h None rc kf st = (st1, Inr u)" and "f \<in> set read_fields"
  shows "\<not> isl (py_getitem kf f)"
proof -
  obtain a R a1 R1 where st: "st = (a, R)" "st1 = (a1, R1)"
    by (cases st, cases st1) auto
  from insert_keyframe_cases [OF assms(1) [unfolded st]] not_skipped_None
  obtain dp ai a2 k where
    g: "py_getitem kf ''data_path'' = Inr dp" "py_getitem kf ''array_index'' = Inr ai"
       "insert_point h kf k a2 = (a1, Inr u)"
    by auto
  show ?thesis
    using read_fields_split [OF assms(2), of h] g(1,2) insert_point_ok_fields [OF g(3)]
    by auto
qed

lemma insert_keyframe_lacking:
  "lacks_read_field kf \<Longrightarrow> \<exists>e. snd (insert_keyframe h None rc kf st) = Inl e"
proof -
  assume "lacks_read_field kf"
  then obtain f where f: "f \<in> set read_fields" "isl (py_getitem kf f)"
    by (auto simp: lacks_read_field_def filter_empty_conv)
  show ?thesis
  proof (cases "snd (insert_keyframe h None rc kf st)")
    case (Inl e)
    then show ?thesis by blast
  next
    case (Inr u)
    then have "insert_keyframe h None rc kf st = (fst (insert_keyframe h None rc kf st), Inr u)"
      by (metis prod.collapse)
    from insert_keyframe_ok_fields [OF this f(1)] f(2) show ?thesis by simp
  qed
qed

lemma loop_append:
  "insert_keyframes_loop h filt rc (xs @ ys) st =
     (case insert_keyframes_loop h filt rc xs st of
        (s, Inl e) \<Rightarrow> (s, Inl e)
      | (s, Inr u) \<Rightarrow> insert_keyframes_loop h filt rc ys s)"
  by (induction xs arbitrary: st) (auto split: prod.splits sum.splits)

lemma loop_lacking:
  "lacks_read_field kf \<Longrightarrow> \<exists>e. snd (insert_keyframes_loop h None rc (pre @ kf # post) st) = Inl e"
proof -
  assume l: "lacks_read_field kf"
  obtain s r where p: "insert_keyframes_loop h None rc pre st = (s, r)"
    by (metis surj_pair)
  show ?thesis
  proof (cases r)
    case (Inl e)
    then show ?thesis using p by (simp add: loop_append)
  next
    case (Inr u)
    obtain e where "snd (insert_keyframe h None rc kf s) = Inl e"
      using insert_keyframe_lacking [OF l] by blast
    then show ?thesis
      using p Inr by (cases "insert_keyframe h None rc kf s") (simp add: loop_append)
  qed
qed

lemma insert_keyframe_no_path:
  "py_getitem kf ''data_path'' = Inl e \<Longrightarrow> insert_keyframe h filt rc kf st = (st, Inl e)"
  by (cases st) (simp add: insert_keyframe_def)

section \<open>Passes over well-formed records\<close>

lemma field_Some: "Option.bind (field kf f) g = Some x \<Longrightarrow> \<exists>j. py_getitem kf f = Inr j \<and> g j = Some x"
  by (auto simp: field_def bind_eq_Some_conv split: sum.splits)

lemma decode_record_fields:
  assumes "decode_record h kf = Some (k, pt)"
  shows "\<exists>jdp jai jco jty jam jba jea jhl jhlt jhr jhrt jip jpe.
     py_getitem kf ''data_path'' = Inr jdp \<and> str_of jdp = Some (fst k) \<and>
     py_getitem kf ''array_index'' = Inr jai \<and> int_of jai = Some (snd k) \<and>
     py_getitem kf ''co'' = Inr jco \<and> pair_of jco = Some (co pt) \<and>
     py_getitem kf ''type'' = Inr jty \<and> tag_of h ''type'' jty = Some (kf_type pt) \<and>
     py_getitem kf ''amplitude'' = Inr jam \<and> number_of jam = Some (amplitude pt) \<and>
     py_getitem kf ''back'' = Inr jba \<and> number_of jba = Some (back pt) \<and>
     py_getitem kf ''easing'' = Inr jea \<and> tag_of h ''easing'' jea = Some (easing pt) \<and>
     py_getitem kf ''handle_left'' = Inr jhl \<and> pair_of jhl = Some (handle_left pt) \<and>
     py_getitem kf ''handle_left_type'' = Inr jhlt \<and>
       tag_of h ''handle_left_type'' jhlt = Some (handle_left_type pt) \<and>
     py_getitem kf ''handle_right'' = Inr jhr \<and> pair_of jhr = Some (handle_right pt) \<and>
     py_getitem kf ''handle_right_type'' = Inr jhrt \<and>
       tag_of h ''handle_right_type'' jhrt = Some (handle_right_type pt) \<and>
     py_getitem kf ''interpolation'' = Inr jip \<and>
       tag_of h ''interpolation'' jip = Some (interpolation pt) \<and>
     py_getitem kf ''period'' = Inr jpe \<and> number_of jpe = Some (period pt)"
  using assms unfolding decode_record_def
  by (auto simp: bind_eq_Some_conv field_def split: sum.splits)


lemma number_py_float: "number_of j = Some r \<Longrightarrow> py_float h j = Inr r"
  by (cases j) (auto split: if_splits)

lemma number_host_float: "number_of j = Some r \<Longrightarrow> host_float j = Inr r"
  by (cases j) (auto split: if_splits)

lemma pair_of_cases:
  "pair_of j = Some v \<Longrightarrow> \<exists>x y. j = JArr [x, y] \<and> number_of x = Some (fst v) \<and> number_of y = Some (snd v)"
  by (cases j rule: pair_of.cases) (auto split: option.splits)

lemma float_field_number: "number_of j = Some r \<Longrightarrow> float_field h upd j = Inr (upd r)"
  by (simp add: float_field_def number_py_float)

lemma raw_float_field_number: "number_of j = Some r \<Longrightarrow> raw_float_field upd j = Inr (upd r)"
  by (simp add: raw_float_field_def number_host_float)

lemma vec_field_pair: "pair_of j = Some v \<Longrightarrow> vec_field h upd j = Inr (upd v)"
  by (auto simp: vec_field_def number_py_float dest!: pair_of_cases)

lemma enum_field_tag: "tag_of h prop j = Some s \<Longrightarrow> enum_field h prop upd j = Inr (upd s)"
  by (cases j) (auto simp: enum_field_def tag_of_def split: if_splits)

lemma insert_args_decoded:
  "pair_of jco = Some c \<Longrightarrow> tag_of h ''type'' jty = Some ty \<Longrightarrow>
   \<exists>args. py_iter jco = Inr args \<and> insert_args h args jty = Inr (fst c, snd c, ty)"
  by (cases jty) (auto simp: insert_args_def number_host_float tag_of_def
      split: if_splits dest!: pair_of_cases)

lemma assign_decoded:
  assumes "decode_record h kf = Some (k, pt)" and "co p0 = co pt"
  shows "assign (assignments h) kf p0 = (pt\<lparr>kf_type := kf_type p0\<rparr>, Inr ())"
proof -
  from decode_record_fields [OF assms(1)] obtain jam jba jea jhl jhlt jhr jhrt jip jpe where
    g: "py_getitem kf ''amplitude'' = Inr jam" "number_of jam = Some (amplitude pt)"
       "py_getitem kf ''back'' = Inr jba" "number_of jba = Some (back pt)"
       "py_getitem kf ''easing'' = Inr jea" "tag_of h ''easing'' jea = Some (easing pt)"
       "py_getitem kf ''handle_left'' = Inr jhl" "pair_of jhl = Some (handle_left pt)"
       "py_getitem kf ''handle_left_type'' = Inr jhlt"
       "tag_of h ''handle_left_type'' jhlt = Some (handle_left_type pt)"
       "py_getitem kf ''handle_right'' = Inr jhr" "pair_of jhr = Some (handle_right pt)"
       "py_getitem kf ''handle_right_type'' = Inr jhrt"
       "tag_of h ''handle_right_type'' jhrt = Some (handle_right_type pt)"
       "py_getitem kf ''interpolation'' = Inr jip"
       "tag_of h ''interpolation'' jip = Some (interpolation pt)"
       "py_getitem kf ''period'' = Inr jpe" "number_of jpe = Some (period pt)"
    by blast
  have "assign (assignments h) kf p0 =
        (p0\<lparr>amplitude := amplitude pt, back := back pt, easing := easing pt,
            handle_left := handle_left pt, handle_left_type := handle_left_type pt,
            handle_right := handle_right pt, handle_right_type := handle_right_type pt,
            interpolation := interpolation pt, period := period pt\<rparr>, Inr ())"
    by (simp add: assignments_def g float_field_number raw_float_field_number vec_field_pair
        enum_field_tag)
  moreover have "p0\<lparr>amplitude := amplitude pt, back := back pt, easing := easing pt,
            handle_left := handle_left pt, handle_left_type := handle_left_type pt,
            handle_right := handle_right pt, handle_right_type := handle_right_type pt,
            interpolation := interpolation pt, period := period pt\<rparr> = pt\<lparr>kf_type := kf_type p0\<rparr>"
    using assms(2) by (cases pt, cases p0) simp
  ultimately show ?thesis by simp
qed


lemma kp_insert_Nil:
  assumes "dropWhile (\<lambda>p. time p < t) ps = []"
  shows "kp_insert h t v ty ps =
         (takeWhile (\<lambda>p. time p < t) ps, (fresh_point h ps t v)\<lparr>co := (t, v), kf_type := ty\<rparr>, [])"
  unfolding kp_insert_def Let_def assms by simp

lemma kp_insert_Cons:
  assumes "dropWhile (\<lambda>p. time p < t) ps = q # qs"
  shows "kp_insert h t v ty ps =
         (if time q = t then (takeWhile (\<lambda>p. time p < t) ps, moved q v, qs)
          else (takeWhile (\<lambda>p. time p < t) ps,
                (fresh_point h ps t v)\<lparr>co := (t, v), kf_type := ty\<rparr>, q # qs))"
  unfolding kp_insert_def Let_def assms by simp

lemma upsert_Nil:
  assumes "dropWhile (\<lambda>p. time p < time pt) ps = []"
  shows "upsert pt ps = takeWhile (\<lambda>p. time p < time pt) ps @ [pt]"
  unfolding upsert_def Let_def assms by simp

lemma upsert_Cons:
  assumes "dropWhile (\<lambda>p. time p < time pt) ps = q # qs"
  shows "upsert pt ps =
         (if time q = time pt
          then takeWhile (\<lambda>p. time p < time pt) ps @ pt\<lparr>kf_type := kf_type q\<rparr> # qs
          else takeWhile (\<lambda>p. time p < time pt) ps @ pt # q # qs)"
  unfolding upsert_def Let_def assms by simp

lemma kp_insert_upsert:
  assumes "decode_record h kf = Some (k, pt)"
    and "kp_insert h (time pt) (snd (co pt)) (kf_type pt) ps = (before, p0, after)"
    and "assign (assignments h) kf p0 = (p1, r)"
  shows "before @ p1 # after = upsert pt ps \<and> r = Inr ()"
proof -
  let ?fresh = "(fresh_point h ps (time pt) (snd (co pt)))\<lparr>co := (time pt, snd (co pt)), kf_type := kf_type pt\<rparr>"
  have cf: "co ?fresh = co pt" by (simp add: time_def)
  have tf: "kf_type ?fresh = kf_type pt" by simp
  have fresh: "p1 = pt \<and> r = Inr ()" if "p0 = ?fresh"
    using assign_decoded [OF assms(1), of ?fresh] assms(3) that
    unfolding cf tf by simp
  show ?thesis
  proof (cases "dropWhile (\<lambda>p. time p < time pt) ps")
    case Nil
    have "p0 = ?fresh \<and> before = takeWhile (\<lambda>p. time p < time pt) ps \<and> after = []"
      using assms(2) unfolding kp_insert_Nil [OF Nil] by simp
    then show ?thesis using fresh unfolding upsert_Nil [OF Nil] by simp
  next
    case (Cons q qs)
    show ?thesis
    proof (cases "time q = time pt")
      case True
      have "p0 = moved q (snd (co pt)) \<and> before = takeWhile (\<lambda>p. time p < time pt) ps \<and> after = qs"
        using assms(2) True unfolding kp_insert_Cons [OF Cons] by simp
      then have p0: "p0 = moved q (snd (co pt))"
        and ba: "before = takeWhile (\<lambda>p. time p < time pt) ps" "after = qs"
        by simp_all
      have c: "co p0 = co pt"
        using True by (simp add: p0 moved_def time_def Let_def prod_eq_iff)
      have t: "kf_type p0 = kf_type q" by (simp add: p0 moved_def Let_def)
      have "assign (assignments h) kf p0 = (pt\<lparr>kf_type := kf_type p0\<rparr>, Inr ())"
        by (rule assign_decoded [OF assms(1) c])
      then have "p1 = pt\<lparr>kf_type := kf_type q\<rparr>" "r = Inr ()" using assms(3) t by simp_all
      then show ?thesis using True ba unfolding upsert_Cons [OF Cons] by simp
    next
      case False
      have "p0 = ?fresh \<and> before = takeWhile (\<lambda>p. time p < time pt) ps \<and> after = q # qs"
        using assms(2) False unfolding kp_insert_Cons [OF Cons] by simp
      then show ?thesis using fresh False unfolding upsert_Cons [OF Cons] by simp
    qed
  qed
qed

lemma insert_point_decoded:
  assumes "decode_record h kf = Some (k, pt)"
  shows "insert_point h kf k' a = (with_points k' (upsert pt (curve_points k' a)) a, Inr ())"
proof -
  from decode_record_fields [OF assms] obtain jco jty where
    g: "py_getitem kf ''co'' = Inr jco" "pair_of jco = Some (co pt)"
       "py_getitem kf ''type'' = Inr jty" "tag_of h ''type'' jty = Some (kf_type pt)"
    by blast
  from insert_args_decoded [OF g(2,4)] obtain args where
    a: "py_iter jco = Inr args" "insert_args h args jty = Inr (time pt, snd (co pt), kf_type pt)"
    by (auto simp: time_def)
  obtain before p0 after where
    k: "kp_insert h (time pt) (snd (co pt)) (kf_type pt) (curve_points k' a) = (before, p0, after)"
    by (metis surj_pair)
  obtain p1 r where s: "assign (assignments h) kf p0 = (p1, r)"
    by (metis surj_pair)
  from kp_insert_upsert [OF assms k s] show ?thesis
    by (simp add: insert_point_def g a k s)
qed


lemma matches_typed: "matches (JStr p) (JInt i) = (\<lambda>c. fkey c = (p, i))"
  by (auto simp: matches_def fkey_def fun_eq_iff)

lemma find_None_keys: "find (\<lambda>c. fkey c = k) cs = None \<longleftrightarrow> k \<notin> fkey ` set cs"
  by (auto simp: find_None_iff)


lemma find_append_new:
  "find P (cs @ [c]) = (case find P cs of Some x \<Rightarrow> Some x | None \<Rightarrow> if P c then Some c else None)"
  by (induction cs) auto

lemma find_remove1_other: "\<not> P c \<Longrightarrow> find P (remove1 c cs) = find P cs"
  by (induction cs) auto

lemma curve_points_appended:
  "curve_points k' (a\<lparr>fcurves := cs @ [new_fcurve p i]\<rparr>) =
     (case find (\<lambda>c. fkey c = k') cs of Some c \<Rightarrow> keyframe_points c | None \<Rightarrow> [])"
  by (simp add: curve_points_def find_append_new fkey_new new_fcurve_def split: option.splits)

lemma fcurves_new_typed:
  "(p, i) \<notin> fkey ` set (fcurves a) \<Longrightarrow>
   fcurves_new (JStr p) (JInt i) a = (a\<lparr>fcurves := fcurves a @ [new_fcurve p i]\<rparr>, Inr (p, i))"
  by (simp add: fcurves_new_def)

lemma image_remove1_distinct:
  "distinct (map f xs) \<Longrightarrow> x \<in> set xs \<Longrightarrow> f ` set (remove1 x xs) = f ` set xs - {f x}"
  by (induction xs) (auto simp: image_iff)

lemma touch_fcurve_typed:
  assumes "unique_keys a"
  shows "\<exists>a1. touch_fcurve a (JStr p) (JInt i) replace = (a1, Inr (p, i)) \<and>
           unique_keys a1 \<and> name a1 = name a \<and> groups a1 = groups a \<and>
           fkey ` set (fcurves a1) = insert (p, i) (fkey ` set (fcurves a)) \<and>
           (\<forall>k'. curve_points k' a1 =
              (if k' = (p, i) then (if replace then [] else curve_points (p, i) a)
               else curve_points k' a))"
proof (cases "find (\<lambda>c. fkey c = (p, i)) (fcurves a)")
  case None
  then have n: "(p, i) \<notin> fkey ` set (fcurves a)" by (simp add: find_None_keys)
  let ?a1 = "a\<lparr>fcurves := fcurves a @ [new_fcurve p i]\<rparr>"
  have t: "touch_fcurve a (JStr p) (JInt i) replace = (?a1, Inr (p, i))"
    using None n by (simp add: touch_fcurve_def matches_typed fcurves_new_typed)
  have u: "unique_keys ?a1"
    using assms n by (simp add: unique_keys_def fkey_new)
  have c: "curve_points k' ?a1 =
           (if k' = (p, i) then (if replace then [] else curve_points (p, i) a) else curve_points k' a)" for k'
    using None by (simp add: curve_points_appended) (simp add: curve_points_def)
  show ?thesis using t u c by (simp add: fkey_new)
next
  case (Some c)
  then have kc: "fkey c = (p, i)" and cin: "c \<in> set (fcurves a)"
    by (auto simp: find_Some_iff)
  show ?thesis
  proof (cases replace)
    case False
    have "touch_fcurve a (JStr p) (JInt i) replace = (a, Inr (p, i))"
      using Some False kc by (simp add: touch_fcurve_def matches_typed)
    moreover have "insert (p, i) (fkey ` set (fcurves a)) = fkey ` set (fcurves a)"
      using kc cin by force
    ultimately show ?thesis using assms False by simp
  next
    case True
    let ?cs = "remove1 c (fcurves a)"
    let ?a2 = "a\<lparr>fcurves := ?cs\<rparr>"
    let ?a1 = "a\<lparr>fcurves := ?cs @ [new_fcurve p i]\<rparr>"
    have d: "distinct (map fkey (fcurves a))" using assms by (simp add: unique_keys_def)
    have m: "fkey ` set ?cs = fkey ` set (fcurves a) - {fkey c}"
      using d cin by (rule image_remove1_distinct)
    have n: "(p, i) \<notin> fkey ` set ?cs"
      using m kc by simp
    have t: "touch_fcurve a (JStr p) (JInt i) replace = (?a1, Inr (p, i))"
      using Some True n fcurves_new_typed [of p i ?a2]
      by (simp add: touch_fcurve_def matches_typed)
    have u: "unique_keys ?a1"
      using d n by (simp add: unique_keys_def fkey_new distinct_map_remove1)
    have s: "fkey ` set (fcurves ?a1) = insert (p, i) (fkey ` set (fcurves a))"
      using m kc cin by (auto simp: fkey_new)
    have c: "curve_points k' ?a1 =
             (if k' = (p, i) then (if replace then [] else curve_points (p, i) a) else curve_points k' a)" for k'
    proof (cases "k' = (p, i)")
      case True
      have "find (\<lambda>c. fkey c = (p, i)) ?cs = None"
        using n by (simp add: find_None_keys)
      then show ?thesis using True \<open>replace\<close> by (simp add: curve_points_appended)
    next
      case False
      then have "find (\<lambda>c. fkey c = k') ?cs = find (\<lambda>c. fkey c = k') (fcurves a)"
        using kc by (simp add: find_remove1_other)
      then show ?thesis using False by (simp add: curve_points_appended) (simp add: curve_points_def)
    qed
    show ?thesis using t u s c by simp
  qed
qed


lemma find_map_first:
  "(\<And>c. fkey (f c) = fkey c) \<Longrightarrow>
   find (\<lambda>c. fkey c = k') (map_first (\<lambda>c. fkey c = k) f cs) =
     (if k' = k then map_option f (find (\<lambda>c. fkey c = k) cs) else find (\<lambda>c. fkey c = k') cs)"
  by (induction cs) auto

lemma curve_points_with_points:
  assumes "k \<in> fkey ` set (fcurves a)"
  shows "curve_points k' (with_points k ps a) = (if k' = k then ps else curve_points k' a)"
proof -
  have f: "find (\<lambda>c. fkey c = k') (map_first (\<lambda>c. fkey c = k) (\<lambda>c. c\<lparr>keyframe_points := ps\<rparr>) (fcurves a)) =
        (if k' = k then map_option (\<lambda>c. c\<lparr>keyframe_points := ps\<rparr>) (find (\<lambda>c. fkey c = k) (fcurves a))
         else find (\<lambda>c. fkey c = k') (fcurves a))"
    by (rule find_map_first) (simp add: fkey_def)
  obtain c where "find (\<lambda>c. fkey c = k) (fcurves a) = Some c"
    using assms find_None_keys [of k "fcurves a"] by (cases "find (\<lambda>c. fkey c = k) (fcurves a)") auto
  then show ?thesis
    by (simp add: curve_points_def with_points_def f)
qed

lemma decoded_key_fields:
  assumes "decode_record h kf = Some (k, pt)"
  shows "py_getitem kf ''data_path'' = Inr (JStr (fst k)) \<and>
         py_getitem kf ''array_index'' = Inr (JInt (snd k))"
proof -
  from decode_record_fields [OF assms] obtain jdp jai where
    g: "py_getitem kf ''data_path'' = Inr jdp" "str_of jdp = Some (fst k)"
       "py_getitem kf ''array_index'' = Inr jai" "int_of jai = Some (snd k)"
    by blast
  have "jdp = JStr (fst k)" using g(2) by (cases jdp) auto
  moreover have "jai = JInt (snd k)" using g(4) by (cases jai) auto
  ultimately show ?thesis using g by simp
qed

lemma py_in_typed: "py_in (JStr p) (JInt i) R = Inr ((p, i) \<in> R)"
  by (simp add: py_in_def py_key_def)

lemma step_decoded:
  assumes "decode_record h kf = Some (k, pt)" and "unique_keys a"
  shows "\<exists>a1. insert_keyframe h None rc kf (a, R) =
                 ((a1, if rc then insert k R else R), Inr ()) \<and>
           unique_keys a1 \<and> name a1 = name a \<and> groups a1 = groups a \<and>
           fkey ` set (fcurves a1) = insert k (fkey ` set (fcurves a)) \<and>
           (\<forall>k'. curve_points k' a1 =
              (if k' = k then upsert pt (if rc \<and> k \<notin> R then [] else curve_points k a)
               else curve_points k' a))"
proof -
  obtain p i where k: "k = (p, i)" by (cases k)
  let ?rep = "if \<not> ((p, i) \<in> R) then rc else False"
  from touch_fcurve_typed [OF assms(2), of p i ?rep] obtain a1 where
    t: "touch_fcurve a (JStr p) (JInt i) ?rep = (a1, Inr (p, i))"
    and u: "unique_keys a1" and n: "name a1 = name a" "groups a1 = groups a"
    and s: "fkey ` set (fcurves a1) = insert (p, i) (fkey ` set (fcurves a))"
    and c: "\<And>k'. curve_points k' a1 =
              (if k' = (p, i) then (if ?rep then [] else curve_points (p, i) a)
               else curve_points k' a)"
    by blast
  let ?a2 = "with_points (p, i) (upsert pt (curve_points (p, i) a1)) a1"
  have ip: "insert_point h kf (p, i) a1 = (?a2, Inr ())"
    by (rule insert_point_decoded [OF assms(1)])
  have kin: "(p, i) \<in> fkey ` set (fcurves a1)" using s by simp
  have step: "insert_keyframe h None rc kf (a, R) =
              ((?a2, if rc then insert k R else R), Inr ())"
    using decoded_key_fields [OF assms(1)] t ip
    by (simp add: insert_keyframe_def k filter_skips_def py_in_typed)
  have u2: "unique_keys ?a2" using u by (simp add: unique_keys_def with_points_keys)
  have s2: "fkey ` set (fcurves ?a2) = insert k (fkey ` set (fcurves a))"
    using s with_points_keys [of "(p, i)" _ a1] by (metis k list.set_map)
  have c2: "curve_points k' ?a2 =
            (if k' = k then upsert pt (if rc \<and> k \<notin> R then [] else curve_points k a)
             else curve_points k' a)" for k'
    using c by (auto simp: curve_points_with_points [OF kin] k)
  show ?thesis
    using step u2 s2 c2 n by (auto simp: with_points_name)
qed


lemma points_for_Cons:
  "points_for k ((k1, pt) # recs) = (if k1 = k then pt # points_for k recs else points_for k recs)"
  by (simp add: points_for_def)

lemma loop_decoded:
  assumes "decode_all h kfs = Some recs" and "unique_keys a"
  shows "\<exists>a'. insert_keyframes_loop h None rc kfs (a, R) =
                 ((a', if rc then R \<union> fst ` set recs else R), Inr ()) \<and>
           unique_keys a' \<and> name a' = name a \<and> groups a' = groups a \<and>
           fkey ` set (fcurves a') = fkey ` set (fcurves a) \<union> fst ` set recs \<and>
           (\<forall>k. curve_points k a' =
              fold upsert (points_for k recs)
                (if rc \<and> k \<notin> R \<and> points_for k recs \<noteq> [] then [] else curve_points k a))"
  using assms
proof (induction kfs arbitrary: recs a R)
  case Nil
  then show ?case by (simp add: points_for_def)
next
  case (Cons kf kfs)
  from Cons.prems(1) obtain k1 pt rest where
    d: "decode_record h kf = Some (k1, pt)" "decode_all h kfs = Some rest" "recs = (k1, pt) # rest"
    by (auto split: option.splits)
  let ?R1 = "if rc then insert k1 R else R"
  from step_decoded [OF d(1) Cons.prems(2), of rc R] obtain a1 where
    s: "insert_keyframe h None rc kf (a, R) = ((a1, ?R1), Inr ())"
    and u: "unique_keys a1" and n: "name a1 = name a" "groups a1 = groups a"
    and ks: "fkey ` set (fcurves a1) = insert k1 (fkey ` set (fcurves a))"
    and c: "\<And>k'. curve_points k' a1 =
              (if k' = k1 then upsert pt (if rc \<and> k1 \<notin> R then [] else curve_points k1 a)
               else curve_points k' a)"
    by blast
  from Cons.IH [OF d(2) u, of ?R1] obtain a' where
    l: "insert_keyframes_loop h None rc kfs (a1, ?R1) =
          ((a', if rc then ?R1 \<union> fst ` set rest else ?R1), Inr ())"
    and u': "unique_keys a'" and n': "name a' = name a1" "groups a' = groups a1"
    and ks': "fkey ` set (fcurves a') = fkey ` set (fcurves a1) \<union> fst ` set rest"
    and c': "\<And>k. curve_points k a' =
              fold upsert (points_for k rest)
                (if rc \<and> k \<notin> ?R1 \<and> points_for k rest \<noteq> [] then [] else curve_points k a1)"
    by blast
  have run: "insert_keyframes_loop h None rc (kf # kfs) (a, R) =
             ((a', if rc then R \<union> fst ` set recs else R), Inr ())"
    using s l by (auto simp: d(3))
  have keys: "fkey ` set (fcurves a') = fkey ` set (fcurves a) \<union> fst ` set recs"
    using ks ks' by (auto simp: d(3))
  have pts: "curve_points k a' =
             fold upsert (points_for k recs)
               (if rc \<and> k \<notin> R \<and> points_for k recs \<noteq> [] then [] else curve_points k a)" for k
    unfolding c' [of k] c [of k] d(3) points_for_Cons by auto
  show ?case
    using run u' n n' keys pts by auto
qed

section \<open>Replacing and merging\<close>

lemma upsert_fresh:
  assumes "time pt \<notin> time ` set ps"
  shows "upsert pt ps =
         takeWhile (\<lambda>p. time p < time pt) ps @ pt # dropWhile (\<lambda>p. time p < time pt) ps"
proof (cases "dropWhile (\<lambda>p. time p < time pt) ps")
  case Nil
  show ?thesis unfolding upsert_Nil [OF Nil] Nil by simp
next
  case (Cons q qs)
  have "q \<in> set (dropWhile (\<lambda>p. time p < time pt) ps)" unfolding Cons by simp
  then have "q \<in> set ps" by (rule set_dropWhileD)
  then have "time q \<noteq> time pt" using assms by (metis image_eqI)
  then show ?thesis unfolding upsert_Cons [OF Cons] Cons by simp
qed

lemma set_upsert_fresh:
  assumes "time pt \<notin> time ` set ps"
  shows "set (upsert pt ps) = insert pt (set ps)"
proof -
  have "set (takeWhile (\<lambda>p. time p < time pt) ps) \<union> set (dropWhile (\<lambda>p. time p < time pt) ps) = set ps"
    by (metis set_append takeWhile_dropWhile_id)
  then show ?thesis unfolding upsert_fresh [OF assms] by auto
qed

lemma length_upsert_fresh:
  assumes "time pt \<notin> time ` set ps"
  shows "length (upsert pt ps) = Suc (length ps)"
proof -
  have "length (takeWhile (\<lambda>p. time p < time pt) ps) + length (dropWhile (\<lambda>p. time p < time pt) ps) = length ps"
    by (metis length_append takeWhile_dropWhile_id)
  then show ?thesis unfolding upsert_fresh [OF assms] by simp
qed

lemma fold_upsert_fresh:
  "distinct (map time pts) \<Longrightarrow> time ` set pts \<inter> time ` set ps = {} \<Longrightarrow>
   set (fold upsert pts ps) = set ps \<union> set pts \<and>
   length (fold upsert pts ps) = length ps + length pts"
proof (induction pts arbitrary: ps)
  case Nil
  then show ?case by simp
next
  case (Cons p pts)
  have f: "time p \<notin> time ` set ps" using Cons.prems(2) by auto
  have "time ` set pts \<inter> time ` set (upsert p ps) = {}"
    using Cons.prems unfolding set_upsert_fresh [OF f] by auto
  moreover have "distinct (map time pts)" using Cons.prems(1) by simp
  ultimately have "set (fold upsert pts (upsert p ps)) = set (upsert p ps) \<union> set pts \<and>
      length (fold upsert pts (upsert p ps)) = length (upsert p ps) + length pts"
    by (rule Cons.IH [rotated])
  then show ?case
    by (simp add: set_upsert_fresh [OF f] length_upsert_fresh [OF f])
qed

lemma time_sorted_upsert:
  assumes "time_sorted ps"
  shows "time_sorted (upsert pt ps)"
proof -
  let ?R = "\<lambda>p q. time p < time q"
  define B where "B = takeWhile (\<lambda>p. time p < time pt) ps"
  define D where "D = dropWhile (\<lambda>p. time p < time pt) ps"
  have "sorted_wrt ?R (B @ D)"
    using assms by (simp add: time_sorted_def B_def D_def)
  then have sb: "sorted_wrt ?R B" and sr: "sorted_wrt ?R D"
    and cross: "\<And>x y. x \<in> set B \<Longrightarrow> y \<in> set D \<Longrightarrow> time x < time y"
    unfolding sorted_wrt_append by blast+
  have before: "\<And>x. x \<in> set B \<Longrightarrow> time x < time pt"
    unfolding B_def by (rule set_takeWhileD [THEN conjunct2])
  show ?thesis
  proof (cases D)
    case Nil
    then have n: "dropWhile (\<lambda>p. time p < time pt) ps = []" by (simp only: D_def)
    have "sorted_wrt ?R (B @ [pt])"
      unfolding sorted_wrt_append using sb before by simp
    then show ?thesis
      unfolding upsert_Nil [OF n] time_sorted_def B_def .
  next
    case (Cons q qs)
    then have c: "dropWhile (\<lambda>p. time p < time pt) ps = q # qs" by (simp only: D_def)
    have nq: "\<not> time q < time pt"
      using hd_dropWhile [of "\<lambda>p. time p < time pt" ps] unfolding c by simp
    have sq: "\<And>y. y \<in> set qs \<Longrightarrow> time q < time y" and sqs: "sorted_wrt ?R qs"
      using sr unfolding Cons by simp_all
    have cq: "\<And>x. x \<in> set B \<Longrightarrow> time x < time q"
      and cqs: "\<And>x y. x \<in> set B \<Longrightarrow> y \<in> set qs \<Longrightarrow> time x < time y"
      using cross unfolding Cons by simp_all
    show ?thesis
    proof (cases "time q = time pt")
      case True
      let ?pt = "pt\<lparr>kf_type := kf_type q\<rparr>"
      have tp: "time ?pt = time q" using True by (simp add: time_def)
      have a: "sorted_wrt ?R (?pt # qs)"
        using sq sqs unfolding sorted_wrt.simps tp by blast
      have b: "\<forall>x\<in>set B. \<forall>y\<in>set (?pt # qs). time x < time y"
        using cq cqs tp by simp
      have "sorted_wrt ?R (B @ ?pt # qs)"
        unfolding sorted_wrt_append using sb a b by blast
      then show ?thesis
        unfolding upsert_Cons [OF c] time_sorted_def if_P [OF True] B_def .
    next
      case False
      then have lt: "time pt < time q" using nq by simp
      have "time pt < time y" if "y \<in> set qs" for y
        using sq [OF that] lt by simp
      then have a: "sorted_wrt ?R (pt # q # qs)"
        using sq sqs lt unfolding sorted_wrt.simps by simp
      have b: "\<forall>x\<in>set B. \<forall>y\<in>set (pt # q # qs). time x < time y"
        using before cq cqs by simp
      have "sorted_wrt ?R (B @ pt # q # qs)"
        unfolding sorted_wrt_append using sb a b by blast
      then show ?thesis
        unfolding upsert_Cons [OF c] time_sorted_def if_not_P [OF False] B_def .
    qed
  qed
qed

lemma time_sorted_fold_upsert: "time_sorted ps \<Longrightarrow> time_sorted (fold upsert pts ps)"
  by (induction pts arbitrary: ps) (simp_all add: time_sorted_upsert)

lemma insert_keyframes_decoded:
  assumes "decode_all h kfs = Some recs" and "unique_keys a"
  shows "snd (insert_keyframes h a (JArr kfs) None rc) = Inr () \<and>
         unique_keys (fst (insert_keyframes h a (JArr kfs) None rc)) \<and>
         name (fst (insert_keyframes h a (JArr kfs) None rc)) = name a \<and>
         groups (fst (insert_keyframes h a (JArr kfs) None rc)) = groups a \<and>
         fkey ` set (fcurves (fst (insert_keyframes h a (JArr kfs) None rc))) =
           fkey ` set (fcurves a) \<union> fst ` set recs \<and>
         curve_points k (fst (insert_keyframes h a (JArr kfs) None rc)) =
            fold upsert (points_for k recs)
              (if rc \<and> points_for k recs \<noteq> [] then [] else curve_points k a)"
proof -
  from loop_decoded [OF assms, of rc "{}"] obtain a' where
    "insert_keyframes_loop h None rc kfs (a, {}) =
       ((a', if rc then {} \<union> fst ` set recs else {}), Inr ())"
    and r: "unique_keys a'" "name a' = name a" "groups a' = groups a"
      "fkey ` set (fcurves a') = fkey ` set (fcurves a) \<union> fst ` set recs"
      "\<forall>k. curve_points k a' =
          fold upsert (points_for k recs)
            (if rc \<and> k \<notin> {} \<and> points_for k recs \<noteq> [] then [] else curve_points k a)"
    by blast
  then have "insert_keyframes h a (JArr kfs) None rc = (a', Inr ())"
    by (simp add: insert_keyframes_def)
  moreover have "curve_points k a' =
      fold upsert (points_for k recs)
        (if rc \<and> points_for k recs \<noteq> [] then [] else curve_points k a)"
    using r(5) [THEN spec, of k] by simp
  ultimately show ?thesis using r(1-4) by simp
qed

text \<open>
  C2: for a container with at most one channel per key and a document of well-formed
  records, of which those for the key \<open>k\<close> are at pairwise distinct times and at least
  one in number, \<^verbatim>\<open>insert_keyframes\<close> with \<^verbatim>\<open>replace_curve=True\<close> returns normally and
  leaves in the channel of \<open>k\<close> exactly the points of those records, as many as there
  are records, in order of time: what the channel held before is cleared once, at the
  first record, and never again.
\<close>

theorem first_touch_replace:
  assumes "unique_keys a" and "decode_all h kfs = Some recs"
    and "distinct (map time (points_for k recs))" and "points_for k recs \<noteq> []"
  shows "snd (insert_keyframes h a (JArr kfs) None True) = Inr () \<and>
         length (curve_points k (fst (insert_keyframes h a (JArr kfs) None True))) =
           length (points_for k recs) \<and>
         set (curve_points k (fst (insert_keyframes h a (JArr kfs) None True))) =
           set (points_for k recs) \<and>
         time_sorted (curve_points k (fst (insert_keyframes h a (JArr kfs) None True)))"
proof -
  note d = insert_keyframes_decoded [OF assms(2,1), of True k]
  have c: "curve_points k (fst (insert_keyframes h a (JArr kfs) None True)) =
           fold upsert (points_for k recs) []"
    using d assms(4) by simp
  have "time_sorted (fold upsert (points_for k recs) [])"
    by (rule time_sorted_fold_upsert) (simp add: time_sorted_def)
  then show ?thesis
    using d fold_upsert_fresh [OF assms(3), of "[]"] unfolding c by simp
qed

text \<open>
  C9, amended: for a container with at most one channel per key and a document of
  well-formed records, of which those for the key \<open>k\<close> are at pairwise distinct times
  that are none of the times of the points the channel of \<open>k\<close> holds, \<^verbatim>\<open>insert_keyframes\<close>
  with \<^verbatim>\<open>replace_curve=False\<close> returns normally and the channel then holds the union of
  its prior points and the points of those records, each once, and is ordered by time if
  it was.
\<close>

theorem merge_disjoint:
  assumes "unique_keys a" and "decode_all h kfs = Some recs"
    and "distinct (map time (points_for k recs))"
    and "time ` set (points_for k recs) \<inter> time ` set (curve_points k a) = {}"
  shows "snd (insert_keyframes h a (JArr kfs) None False) = Inr () \<and>
         set (curve_points k (fst (insert_keyframes h a (JArr kfs) None False))) =
           set (curve_points k a) \<union> set (points_for k recs) \<and>
         length (curve_points k (fst (insert_keyframes h a (JArr kfs) None False))) =
           length (curve_points k a) + length (points_for k recs) \<and>
         (time_sorted (curve_points k a) \<longrightarrow>
            time_sorted (curve_points k (fst (insert_keyframes h a (JArr kfs) None False))))"
proof -
  note d = insert_keyframes_decoded [OF assms(2,1), of False k]
  have c: "curve_points k (fst (insert_keyframes h a (JArr kfs) None False)) =
           fold upsert (points_for k recs) (curve_points k a)"
    using d by simp
  show ?thesis
    using d fold_upsert_fresh [OF assms(3,4)] time_sorted_fold_upsert unfolding c by simp
qed


lemmas decode_defs =
  decode_record_def field_def tag_of_def points_for_def same_time_keyframes_def

lemma decode_example_keyframes:
  "decode_all example_host example_keyframes =
     Some [((''location'', 0), example_point 5 1), ((''scale'', 2), example_point 4 0),
           ((''location'', 0), example_point 4 2)]"
  by (simp add: decode_defs example_host_def example_enum_def example_record_def
      example_point_def example_keyframes_def)

lemma unique_keys_example: "unique_keys example_action"
  by (simp add: unique_keys_def example_action_def fkey_def)

theorem first_touch_replace_witness:
  "snd (insert_keyframes example_host example_action (JArr example_keyframes) None True) = Inr () \<and>
   length (curve_points (''location'', 0)
     (fst (insert_keyframes example_host example_action (JArr example_keyframes) None True))) = 2 \<and>
   set (curve_points (''location'', 0)
     (fst (insert_keyframes example_host example_action (JArr example_keyframes) None True))) =
     {example_point 5 1, example_point 4 2}"
proof -
  let ?recs = "[((''location'', 0 :: int), example_point 5 1), ((''scale'', 2), example_point 4 0),
                ((''location'', 0), example_point 4 2)]"
  have p: "points_for (''location'', 0) ?recs = [example_point 5 1, example_point 4 2]"
    by (simp add: points_for_def)
  have d: "distinct (map time (points_for (''location'', 0) ?recs))"
    unfolding p by (simp add: time_def example_point_def)
  have n: "points_for (''location'', 0) ?recs \<noteq> []"
    unfolding p by simp
  show ?thesis
    using first_touch_replace [OF unique_keys_example decode_example_keyframes d n] unfolding p by simp
qed

theorem merge_disjoint_witness:
  "snd (insert_keyframes example_host example_action (JArr example_keyframes) None False) = Inr () \<and>
   length (curve_points (''location'', 0)
     (fst (insert_keyframes example_host example_action (JArr example_keyframes) None False))) = 4 \<and>
   set (curve_points (''location'', 0)
     (fst (insert_keyframes example_host example_action (JArr example_keyframes) None False))) =
     {example_point 1 0, example_point 3 2, example_point 5 1, example_point 4 2}"
proof -
  let ?recs = "[((''location'', 0 :: int), example_point 5 1), ((''scale'', 2), example_point 4 0),
                ((''location'', 0), example_point 4 2)]"
  have p: "points_for (''location'', 0) ?recs = [example_point 5 1, example_point 4 2]"
    by (simp add: points_for_def)
  have c: "curve_points (''location'', 0) example_action = [example_point 1 0, example_point 3 2]"
    by (simp add: curve_points_def example_action_def fkey_def)
  have d: "distinct (map time (points_for (''location'', 0) ?recs))"
    unfolding p by (simp add: time_def example_point_def)
  have i: "time ` set (points_for (''location'', 0) ?recs) \<inter>
           time ` set (curve_points (''location'', 0) example_action) = {}"
    unfolding p c by (simp add: time_def example_point_def)
  show ?thesis
    using merge_disjoint [OF unique_keys_example decode_example_keyframes d i] unfolding p c by auto
qed

text \<open>
  C9 as stated fails when two records of the document share a time: that time is not in
  the channel, yet only one point is added for the two records, and the point of the
  first record is not in the result.
\<close>

theorem merge_disjoint_counterexample:
  "time ` set (points_for (''location'', 0)
                 [((''location'', 0), example_point 5 1), ((''location'', 0), example_point 5 2)]) \<inter>
     time ` set (curve_points (''location'', 0) example_action) = {} \<and>
   decode_all example_host same_time_keyframes =
     Some [((''location'', 0), example_point 5 1), ((''location'', 0), example_point 5 2)] \<and>
   curve_points (''location'', 0)
     (fst (insert_keyframes example_host example_action (JArr same_time_keyframes) None False)) =
     [example_point 1 0, example_point 3 2, example_point 5 2] \<and>
   example_point 5 1 \<notin> set (curve_points (''location'', 0)
     (fst (insert_keyframes example_host example_action (JArr same_time_keyframes) None False)))"
  by (simp add: eval_defs decode_defs)

section \<open>Integers beyond the range of a float\<close>

text \<open>
  \<^verbatim>\<open>float\<close> raises OverflowError from \<open>2 ^ 1024 - 2 ^ 970\<close> on. A record whose \<^verbatim>\<open>amplitude\<close>
  is such an integer is not well formed: its import raises at line 193, after the point
  was inserted.
\<close>

lemma float_overflow:
  "py_float h (JInt (2 ^ 1024)) = Inl OverflowError \<and>
   py_float h (JInt (2 ^ 1024 - 2 ^ 970 - 1)) = Inr (2 ^ 1024 - 2 ^ 970 - 1) \<and>
   number_of (JInt (2 ^ 1024)) = None"
  by (simp add: in_double_range_def double_limit_def)

lemma amplitude_overflow:
  "decode_record example_host
     (with_field ''amplitude'' (JInt (2 ^ 1024)) (example_record ''location'' 0 1 0)) = None \<and>
   snd (insert_keyframes example_host (new_action ''Test'')
          (JArr [with_field ''amplitude'' (JInt (2 ^ 1024)) (example_record ''location'' 0 1 0)])
          None True) = Inl OverflowError \<and>
   map time (curve_points (''location'', 0)
     (fst (insert_keyframes example_host (new_action ''Test'')
          (JArr [with_field ''amplitude'' (JInt (2 ^ 1024)) (example_record ''location'' 0 1 0)])
          None True))) = [1]"
  by (simp add: eval_defs decode_defs)

section \<open>Records with a field missing\<close>

lemma map_of_without:
  "map_of (filter (\<lambda>kv. fst kv \<noteq> f) kvs) g = (if g = f then None else map_of kvs g)"
  by (induction kvs) auto

lemma getitem_without_same:
  "py_getitem (without_field f (JObj kvs)) f = Inl (KeyError f)"
  by (simp add: map_of_without)

lemma getitem_without_other:
  "g \<noteq> f \<Longrightarrow> py_getitem (without_field f kf) g = py_getitem kf g"
  by (cases kf) (simp_all add: map_of_without)

lemma decoded_is_obj: "decode_record h kf = Some r \<Longrightarrow> \<exists>kvs. kf = JObj kvs"
  by (cases kf) (simp_all add: decode_record_def field_def)

lemma assignments_decoded:
  assumes "decode_record h kf = Some (k, pt)"
  shows "list_all (\<lambda>gc. \<exists>j upd. py_getitem kf (fst gc) = Inr j \<and> snd gc j = Inr upd) (assignments h)"
proof -
  from decode_record_fields [OF assms(1)] obtain jam jba jea jhl jhlt jhr jhrt jip jpe where
    g: "py_getitem kf ''amplitude'' = Inr jam" "number_of jam = Some (amplitude pt)"
       "py_getitem kf ''back'' = Inr jba" "number_of jba = Some (back pt)"
       "py_getitem kf ''easing'' = Inr jea" "tag_of h ''easing'' jea = Some (easing pt)"
       "py_getitem kf ''handle_left'' = Inr jhl" "pair_of jhl = Some (handle_left pt)"
       "py_getitem kf ''handle_left_type'' = Inr jhlt"
       "tag_of h ''handle_left_type'' jhlt = Some (handle_left_type pt)"
       "py_getitem kf ''handle_right'' = Inr jhr" "pair_of jhr = Some (handle_right pt)"
       "py_getitem kf ''handle_right_type'' = Inr jhrt"
       "tag_of h ''handle_right_type'' jhrt = Some (handle_right_type pt)"
       "py_getitem kf ''interpolation'' = Inr jip"
       "tag_of h ''interpolation'' jip = Some (interpolation pt)"
       "py_getitem kf ''period'' = Inr jpe" "number_of jpe = Some (period pt)"
    by blast
  show ?thesis
    by (simp add: assignments_def g float_field_number raw_float_field_number vec_field_pair
        enum_field_tag)
qed

lemma assignments_keep_co:
  "list_all (\<lambda>gc. \<forall>j upd p. snd gc j = Inr upd \<longrightarrow> co (upd p) = co p) (assignments h)"
  by (auto simp: assignments_def float_field_def enum_field_def vec_field_def raw_float_field_def
      split: sum.splits)

lemma assign_keeps_co:
  "list_all (\<lambda>gc. \<forall>j upd p. snd gc j = Inr upd \<longrightarrow> co (upd p) = co p) fs \<Longrightarrow>
   co (fst (assign fs kf p)) = co p"
proof (induction fs arbitrary: p)
  case Nil
  then show ?case by simp
next
  case (Cons fc fs)
  obtain g conv where fc: "fc = (g, conv)" by (cases fc)
  have ih: "co (fst (assign fs kf q)) = co q" for q
    using Cons.prems by (intro Cons.IH) simp
  have c: "conv j = Inr upd \<Longrightarrow> co (upd p) = co p" for j upd
    using Cons.prems by (simp add: fc)
  show ?case
  proof (cases "py_getitem kf g")
    case (Inl e)
    then show ?thesis by (simp add: fc)
  next
    case (Inr j)
    show ?thesis
    proof (cases "conv j")
      case (Inl e)
      then show ?thesis using Inr by (simp add: fc)
    next
      case (Inr upd)
      then show ?thesis using \<open>py_getitem kf g = Inr j\<close> c [OF Inr] ih [of "upd p"] by (simp add: fc)
    qed
  qed
qed

lemma assign_without:
  "list_all (\<lambda>gc. \<exists>j upd. py_getitem kf0 (fst gc) = Inr j \<and> snd gc j = Inr upd) fs \<Longrightarrow>
   f \<in> fst ` set fs \<Longrightarrow>
   py_getitem (without_field f kf0) f = Inl (KeyError f) \<Longrightarrow>
   snd (assign fs (without_field f kf0) p) = Inl (KeyError f)"
proof (induction fs arbitrary: p)
  case Nil
  then show ?case by simp
next
  case (Cons fc fs)
  obtain g conv where fc: "fc = (g, conv)" by (cases fc)
  show ?case
  proof (cases "g = f")
    case True
    then show ?thesis using Cons.prems(3) by (simp add: fc)
  next
    case False
    from Cons.prems(1) obtain j upd where
      j: "py_getitem kf0 g = Inr j" "conv j = Inr upd"
      by (auto simp: fc)
    have w: "py_getitem (without_field f kf0) g = Inr j"
      using getitem_without_other [OF False, of kf0] j(1) by simp
    have "f \<in> fst ` set fs" using Cons.prems(2) False by (auto simp: fc)
    moreover have "list_all (\<lambda>gc. \<exists>j upd. py_getitem kf0 (fst gc) = Inr j \<and> snd gc j = Inr upd) fs"
      using Cons.prems(1) by simp
    ultimately have "snd (assign fs (without_field f kf0) (upd p)) = Inl (KeyError f)"
      using Cons.prems(3) by (intro Cons.IH)
    then show ?thesis using j(2) w
      by (simp only: fc assign.simps sum.case)
  qed
qed


lemma kp_insert_times:
  assumes "kp_insert h (time pt) v ty ps = (before, p0, after)"
  shows "time p0 = time pt \<and>
         (time p1 = time pt \<longrightarrow> map time (before @ p1 # after) = map time (upsert pt ps))"
proof (cases "dropWhile (\<lambda>p. time p < time pt) ps")
  case Nil
  have "p0 = (fresh_point h ps (time pt) v)\<lparr>co := (time pt, v), kf_type := ty\<rparr> \<and>
        before = takeWhile (\<lambda>p. time p < time pt) ps \<and> after = []"
    using assms unfolding kp_insert_Nil [OF Nil] by simp
  then show ?thesis unfolding upsert_Nil [OF Nil] by (simp add: time_def)
next
  case (Cons q qs)
  show ?thesis
  proof (cases "time q = time pt")
    case True
    have "p0 = moved q v \<and> before = takeWhile (\<lambda>p. time p < time pt) ps \<and> after = qs"
      using assms True unfolding kp_insert_Cons [OF Cons] by simp
    then show ?thesis using True unfolding upsert_Cons [OF Cons]
      by (simp add: time_def moved_def Let_def)
  next
    case False
    have "p0 = (fresh_point h ps (time pt) v)\<lparr>co := (time pt, v), kf_type := ty\<rparr> \<and>
          before = takeWhile (\<lambda>p. time p < time pt) ps \<and> after = q # qs"
      using assms False unfolding kp_insert_Cons [OF Cons] by simp
    then show ?thesis using False unfolding upsert_Cons [OF Cons] by (simp add: time_def)
  qed
qed

lemma insert_point_without_co:
  assumes "decode_record h kf0 = Some (k, pt)"
  shows "insert_point h (without_field ''co'' kf0) k' a = (a, Inl (KeyError ''co''))"
proof -
  from decoded_is_obj [OF assms] obtain kvs where o: "kf0 = JObj kvs" by blast
  show ?thesis unfolding o by (simp add: insert_point_def map_of_without)
qed

lemma insert_point_without_type:
  assumes "decode_record h kf0 = Some (k, pt)"
  shows "insert_point h (without_field ''type'' kf0) k' a = (a, Inl (KeyError ''type''))"
proof -
  from decoded_is_obj [OF assms] obtain kvs where o: "kf0 = JObj kvs" by blast
  from decode_record_fields [OF assms] obtain jco where
    g: "py_getitem kf0 ''co'' = Inr jco" by blast
  have c: "py_getitem (without_field ''type'' kf0) ''co'' = Inr jco"
    using g by (simp add: getitem_without_other)
  have t: "py_getitem (without_field ''type'' kf0) ''type'' = Inl (KeyError ''type'')"
    unfolding o by (rule getitem_without_same)
  show ?thesis by (simp add: insert_point_def c t)
qed

lemma insert_point_without:
  assumes "decode_record h kf0 = Some (k, pt)" and "f \<in> fst ` set (assignments h)"
  shows "\<exists>ps. insert_point h (without_field f kf0) k' a = (with_points k' ps a, Inl (KeyError f)) \<and>
              map time ps = map time (upsert pt (curve_points k' a))"
proof -
  from decoded_is_obj [OF assms(1)] obtain kvs where o: "kf0 = JObj kvs" by blast
  have ne: "f \<noteq> ''co''" "f \<noteq> ''type''"
    using assms(2) by (auto simp: assignments_def)
  from decode_record_fields [OF assms(1)] obtain jco jty where
    g: "py_getitem kf0 ''co'' = Inr jco" "pair_of jco = Some (co pt)"
       "py_getitem kf0 ''type'' = Inr jty" "tag_of h ''type'' jty = Some (kf_type pt)"
    by blast
  have g': "py_getitem (without_field f kf0) ''co'' = Inr jco"
    "py_getitem (without_field f kf0) ''type'' = Inr jty"
    using g(1,3) ne by (simp_all add: getitem_without_other)
  from insert_args_decoded [OF g(2,4)] obtain args where
    a: "py_iter jco = Inr args" "insert_args h args jty = Inr (time pt, snd (co pt), kf_type pt)"
    by (auto simp: time_def)
  obtain before p0 after where
    k: "kp_insert h (time pt) (snd (co pt)) (kf_type pt) (curve_points k' a) = (before, p0, after)"
    by (metis surj_pair)
  obtain p1 r where s: "assign (assignments h) (without_field f kf0) p0 = (p1, r)"
    by (metis surj_pair)
  have m: "py_getitem (without_field f kf0) f = Inl (KeyError f)"
    unfolding o by (rule getitem_without_same)
  have r: "r = Inl (KeyError f)"
    using assign_without [OF assignments_decoded [OF assms(1)] assms(2) m, of p0] s by simp
  have "co p1 = co p0"
    using assign_keeps_co [OF assignments_keep_co, of h "without_field f kf0" p0] s by simp
  then have "time p1 = time pt"
    using kp_insert_times [OF k, of p1] by (simp add: time_def)
  then have t: "map time (before @ p1 # after) = map time (upsert pt (curve_points k' a))"
    using kp_insert_times [OF k, of p1] by blast
  have "insert_point h (without_field f kf0) k' a =
        (with_points k' (before @ p1 # after) a, Inl (KeyError f))"
    by (simp add: insert_point_def g' a k s r)
  then show ?thesis using t by blast
qed


lemma step_without_key:
  assumes "decode_record h kf0 = Some (k, pt)" and "f \<in> {''data_path'', ''array_index''}"
  shows "insert_keyframe h filt rc (without_field f kf0) st = (st, Inl (KeyError f))"
proof -
  from decoded_is_obj [OF assms(1)] obtain kvs where o: "kf0 = JObj kvs" by blast
  have m: "py_getitem (without_field f kf0) f = Inl (KeyError f)"
    unfolding o by (rule getitem_without_same)
  show ?thesis
  proof (cases "f = ''data_path''")
    case True
    then show ?thesis using m by (cases st) (simp add: insert_keyframe_def)
  next
    case False
    then have f: "f = ''array_index''" using assms(2) by simp
    have "py_getitem (without_field f kf0) ''data_path'' = Inr (JStr (fst k))"
      using decoded_key_fields [OF assms(1)] by (simp add: f getitem_without_other)
    then show ?thesis using m by (cases st) (simp add: insert_keyframe_def f)
  qed
qed

lemma step_without_point:
  assumes "decode_record h kf0 = Some (k, pt)" and "unique_keys a"
    and "f \<in> {''co'', ''type''} \<union> fst ` set (assignments h)"
  shows "\<exists>a'. insert_keyframe h None rc (without_field f kf0) (a, R) =
                 ((a', if rc then insert k R else R), Inl (KeyError f)) \<and>
           fkey ` set (fcurves a') = insert k (fkey ` set (fcurves a)) \<and>
           (\<forall>k'. k' \<noteq> k \<longrightarrow> curve_points k' a' = curve_points k' a) \<and>
           (f \<in> {''co'', ''type''} \<longrightarrow>
              curve_points k a' = (if rc \<and> k \<notin> R then [] else curve_points k a)) \<and>
           (f \<notin> {''co'', ''type''} \<longrightarrow>
              map time (curve_points k a') =
                map time (upsert pt (if rc \<and> k \<notin> R then [] else curve_points k a)))"
proof -
  obtain p i where k: "k = (p, i)" by (cases k)
  let ?rep = "if \<not> ((p, i) \<in> R) then rc else False"
  let ?kf = "without_field f kf0"
  from touch_fcurve_typed [OF assms(2), of p i ?rep] obtain a1 where
    t: "touch_fcurve a (JStr p) (JInt i) ?rep = (a1, Inr (p, i))"
    and s: "fkey ` set (fcurves a1) = insert (p, i) (fkey ` set (fcurves a))"
    and c: "\<And>k'. curve_points k' a1 =
              (if k' = (p, i) then (if ?rep then [] else curve_points (p, i) a)
               else curve_points k' a)"
    by blast
  have ne: "f \<noteq> ''data_path''" "f \<noteq> ''array_index''"
    using assms(3) by (auto simp: assignments_def)
  have kf: "py_getitem ?kf ''data_path'' = Inr (JStr p)" "py_getitem ?kf ''array_index'' = Inr (JInt i)"
    using decoded_key_fields [OF assms(1)] ne by (simp_all add: getitem_without_other k)
  have step: "insert_keyframe h None rc ?kf (a, R) =
        ((fst (insert_point h ?kf (p, i) a1), if rc then insert k R else R),
         snd (insert_point h ?kf (p, i) a1))"
    using kf t by (simp add: insert_keyframe_def k filter_skips_def py_in_typed split: prod.splits)
  have kin: "(p, i) \<in> fkey ` set (fcurves a1)" using s by simp
  have c1: "curve_points (p, i) a1 = (if rc \<and> (p, i) \<notin> R then [] else curve_points (p, i) a)"
    using c [of "(p, i)"] by auto
  show ?thesis
  proof (cases "f \<in> {''co'', ''type''}")
    case True
    then have ip: "insert_point h ?kf (p, i) a1 = (a1, Inl (KeyError f))"
      using insert_point_without_co [OF assms(1)] insert_point_without_type [OF assms(1)] by auto
    have "insert_keyframe h None rc ?kf (a, R) =
            ((a1, if rc then insert k R else R), Inl (KeyError f))"
      unfolding step ip by simp
    moreover have "\<forall>k'. k' \<noteq> k \<longrightarrow> curve_points k' a1 = curve_points k' a"
      using c by (simp add: k)
    ultimately show ?thesis using s c1 True unfolding k by blast
  next
    case False
    then have fa: "f \<in> fst ` set (assignments h)" using assms(3) by blast
    from insert_point_without [OF assms(1) fa, of "(p, i)" a1] obtain ps where
      ip: "insert_point h ?kf (p, i) a1 = (with_points (p, i) ps a1, Inl (KeyError f))"
      and tm: "map time ps = map time (upsert pt (curve_points (p, i) a1))"
      by blast
    let ?a2 = "with_points (p, i) ps a1"
    have run: "insert_keyframe h None rc ?kf (a, R) =
            ((?a2, if rc then insert k R else R), Inl (KeyError f))"
      unfolding step ip by simp
    have s2: "fkey ` set (fcurves ?a2) = insert k (fkey ` set (fcurves a))"
      using s with_points_keys [of "(p, i)" ps a1] by (metis k list.set_map)
    have o2: "\<forall>k'. k' \<noteq> k \<longrightarrow> curve_points k' ?a2 = curve_points k' a"
      using c by (simp add: curve_points_with_points [OF kin] k)
    have p2: "map time (curve_points k ?a2) =
              map time (upsert pt (if rc \<and> k \<notin> R then [] else curve_points k a))"
      using tm c1 by (simp add: curve_points_with_points [OF kin] k)
    show ?thesis using run s2 o2 p2 False by blast
  qed
qed


lemma assign_same_fields:
  "list_all (\<lambda>gc. py_getitem kf (fst gc) = py_getitem kf' (fst gc)) fs \<Longrightarrow>
   assign fs kf p = assign fs kf' p"
proof (induction fs arbitrary: p)
  case Nil
  then show ?case by simp
next
  case (Cons fc fs)
  obtain g conv where fc: "fc = (g, conv)" by (cases fc)
  have e: "py_getitem kf g = py_getitem kf' g" using Cons.prems by (simp add: fc)
  have ih: "assign fs kf q = assign fs kf' q" for q
    using Cons.prems by (intro Cons.IH) simp
  show ?case
    by (cases "py_getitem kf' g") (auto simp: fc e ih split: sum.splits)
qed

lemma assign_without_group:
  "assign (assignments h) (without_field ''group'' kf) p = assign (assignments h) kf p"
  by (rule assign_same_fields) (simp add: assignments_def getitem_without_other)

lemma insert_point_without_group:
  "insert_point h (without_field ''group'' kf) k a = insert_point h kf k a"
  unfolding insert_point_def
  by (simp only: getitem_without_other [of "''co''" "''group''", simplified]
        getitem_without_other [of "''type''" "''group''", simplified] assign_without_group)

lemma insert_keyframe_without_group:
  "insert_keyframe h filt rc (without_field ''group'' kf) st = insert_keyframe h filt rc kf st"
  unfolding insert_keyframe_def
  by (simp only: getitem_without_other [of "''data_path''" "''group''", simplified]
        getitem_without_other [of "''array_index''" "''group''", simplified]
        insert_point_without_group)

lemma loop_without_group:
  "insert_keyframes_loop h filt rc (map (without_field ''group'') kfs) st =
   insert_keyframes_loop h filt rc kfs st"
  by (induction kfs arbitrary: st) (simp_all add: insert_keyframe_without_group)


lemma record_fields_split:
  assumes "f \<in> set record_fields" and "f \<noteq> ''group''"
  shows "f \<in> {''data_path'', ''array_index''} \<or> f \<in> {''co'', ''type''} \<union> fst ` set (assignments h)"
proof -
  have "f \<in> set read_fields" using assms by (simp add: record_fields_def)
  then show ?thesis by (rule read_fields_split)
qed

lemma loop_without:
  assumes "insert_keyframes_loop h None rc pre st = ((a, R), Inr ())" and "unique_keys a"
    and "decode_record h kf0 = Some (k, pt)" and "f \<in> set record_fields" and "f \<noteq> ''group''"
  shows "\<exists>a'. insert_keyframes_loop h None rc (pre @ without_field f kf0 # post) st =
                 ((a', if f \<in> {''data_path'', ''array_index''} \<or> \<not> rc then R else insert k R),
                  Inl (KeyError f)) \<and>
           (f \<in> {''data_path'', ''array_index''} \<longrightarrow> a' = a) \<and>
           (f \<notin> {''data_path'', ''array_index''} \<longrightarrow>
              fkey ` set (fcurves a') = insert k (fkey ` set (fcurves a)) \<and>
              (\<forall>k'. k' \<noteq> k \<longrightarrow> curve_points k' a' = curve_points k' a) \<and>
              (f \<in> {''co'', ''type''} \<longrightarrow>
                 curve_points k a' = (if rc \<and> k \<notin> R then [] else curve_points k a)) \<and>
              (f \<notin> {''co'', ''type''} \<longrightarrow>
                 map time (curve_points k a') =
                   map time (upsert pt (if rc \<and> k \<notin> R then [] else curve_points k a))))"
proof (cases "f \<in> {''data_path'', ''array_index''}")
  case True
  have "insert_keyframe h None rc (without_field f kf0) (a, R) = ((a, R), Inl (KeyError f))"
    by (rule step_without_key [OF assms(3) True])
  then have "insert_keyframes_loop h None rc (pre @ without_field f kf0 # post) st =
             ((a, R), Inl (KeyError f))"
    using assms(1) by (simp add: loop_append)
  then show ?thesis using True by simp
next
  case False
  then have fp: "f \<in> {''co'', ''type''} \<union> fst ` set (assignments h)"
    using record_fields_split [OF assms(4,5), of h] by blast
  from step_without_point [OF assms(3,2) fp, of rc R] obtain a' where
    s: "insert_keyframe h None rc (without_field f kf0) (a, R) =
          ((a', if rc then insert k R else R), Inl (KeyError f))"
    and r: "fkey ` set (fcurves a') = insert k (fkey ` set (fcurves a))"
      "\<forall>k'. k' \<noteq> k \<longrightarrow> curve_points k' a' = curve_points k' a"
      "f \<in> {''co'', ''type''} \<longrightarrow>
         curve_points k a' = (if rc \<and> k \<notin> R then [] else curve_points k a)"
      "f \<notin> {''co'', ''type''} \<longrightarrow>
         map time (curve_points k a') =
           map time (upsert pt (if rc \<and> k \<notin> R then [] else curve_points k a))"
    by blast
  have "insert_keyframes_loop h None rc (pre @ without_field f kf0 # post) st =
        ((a', if rc then insert k R else R), Inl (KeyError f))"
    using assms(1) s by (simp add: loop_append)
  then have "insert_keyframes_loop h None rc (pre @ without_field f kf0 # post) st =
        ((a', if f \<in> {''data_path'', ''array_index''} \<or> \<not> rc then R else insert k R),
         Inl (KeyError f))"
    using False by simp
  then show ?thesis using r False by blast
qed

lemma resolver_runs_loop:
  assumes "active_action ob = Some a"
  shows "snd (resolver_execute h rc (JsonText (action_document n kfs)) ob) =
           snd (insert_keyframes_loop h None rc kfs (a, {})) \<and>
         active_action (fst (resolver_execute h rc (JsonText (action_document n kfs)) ob)) =
           Some (fst (fst (insert_keyframes_loop h None rc kfs (a, {}))))"
proof -
  from assms obtain ad where ad: "animation_data ob = Some ad" "action ad = Some a"
    by (auto simp: active_action_def split: option.splits)
  obtain a' R r where l: "insert_keyframes_loop h None rc kfs (a, {}) = ((a', R), r)"
    by (metis surj_pair)
  show ?thesis
    by (simp add: resolver_execute_def action_document_def insert_keyframes_def ad l
        active_action_def)
qed

lemma importer_runs_loop:
  "snd (action_importer h (JsonText (action_document n kfs)) ob) =
     snd (insert_keyframes_loop h None True kfs (new_action n, {})) \<and>
   active_action (fst (action_importer h (JsonText (action_document n kfs)) ob)) =
     Some (fst (fst (insert_keyframes_loop h None True kfs (new_action n, {}))))"
proof -
  obtain a' R r where l: "insert_keyframes_loop h None True kfs (new_action n, {}) = ((a', R), r)"
    by (metis surj_pair)
  show ?thesis
    by (simp add: action_importer_def action_document_def insert_keyframes_def l
        active_action_def with_action_def)
qed

text \<open>
  C8, amended: a file that is not JSON makes the action importer, the replacer and the
  merger raise JSONDecodeError with the object untouched. On a file that is JSON the
  operators run the pass over the document's records: the exception of the pass is
  theirs, and the container the pass ends with is the object's action. A record that
  lacks a field the importer reads makes the pass raise, and nothing is rolled back:
  the pass ends with the container as the records before it and the steps taken on the
  record itself left it. For a record without \<^verbatim>\<open>data_path\<close> the exception is the one
  of that lookup. For a record that is well formed but for one missing field \<open>f\<close> of the
  record format other than \<^verbatim>\<open>group\<close>, the exception is \<open>KeyError f\<close>; if \<open>f\<close> is
  \<^verbatim>\<open>data_path\<close> or \<^verbatim>\<open>array_index\<close> the record has changed nothing; otherwise its channel has
  been resolved (created, or emptied under \<^verbatim>\<open>replace_curve\<close> on the first touch of its key)
  and its key recorded, no other channel has changed, and, unless \<open>f\<close> is \<^verbatim>\<open>co\<close> or
  \<^verbatim>\<open>type\<close>, the channel has a point at the record's time as after a complete insertion.
  The field \<^verbatim>\<open>group\<close> is never read: a document imports the same with or without it.
\<close>

theorem malformed_document:
  "action_importer h NotJson ob = (ob, Inl JSONDecodeError) \<and>
   resolver_execute h rc NotJson ob = (ob, Inl JSONDecodeError) \<and>
   (active_action ob = Some b \<longrightarrow>
      snd (resolver_execute h rc (JsonText (action_document n kfs)) ob) =
        snd (insert_keyframes_loop h None rc kfs (b, {})) \<and>
      active_action (fst (resolver_execute h rc (JsonText (action_document n kfs)) ob)) =
        Some (fst (fst (insert_keyframes_loop h None rc kfs (b, {}))))) \<and>
   snd (action_importer h (JsonText (action_document n kfs)) ob) =
     snd (insert_keyframes_loop h None True kfs (new_action n, {})) \<and>
   active_action (fst (action_importer h (JsonText (action_document n kfs)) ob)) =
     Some (fst (fst (insert_keyframes_loop h None True kfs (new_action n, {})))) \<and>
   (lacks_read_field kf \<longrightarrow>
      (\<exists>e. snd (insert_keyframes_loop h None rc (pre @ kf # post) st) = Inl e)) \<and>
   (insert_keyframes_loop h filt rc pre st = (s, Inr ()) \<and> py_getitem kf ''data_path'' = Inl e \<longrightarrow>
      insert_keyframes_loop h filt rc (pre @ kf # post) st = (s, Inl e)) \<and>
   insert_keyframes_loop h filt rc (map (without_field ''group'') kfs) st =
     insert_keyframes_loop h filt rc kfs st \<and>
   (insert_keyframes_loop h None rc pre st = ((a, R), Inr ()) \<and> unique_keys a \<and>
    decode_record h kf0 = Some (k, pt) \<and> f \<in> set record_fields \<and> f \<noteq> ''group'' \<longrightarrow>
      (\<exists>a'. insert_keyframes_loop h None rc (pre @ without_field f kf0 # post) st =
                 ((a', if f \<in> {''data_path'', ''array_index''} \<or> \<not> rc then R else insert k R),
                  Inl (KeyError f)) \<and>
           (f \<in> {''data_path'', ''array_index''} \<longrightarrow> a' = a) \<and>
           (f \<notin> {''data_path'', ''array_index''} \<longrightarrow>
              fkey ` set (fcurves a') = insert k (fkey ` set (fcurves a)) \<and>
              (\<forall>k'. k' \<noteq> k \<longrightarrow> curve_points k' a' = curve_points k' a) \<and>
              (f \<in> {''co'', ''type''} \<longrightarrow>
                 curve_points k a' = (if rc \<and> k \<notin> R then [] else curve_points k a)) \<and>
              (f \<notin> {''co'', ''type''} \<longrightarrow>
                 map time (curve_points k a') =
                   map time (upsert pt (if rc \<and> k \<notin> R then [] else curve_points k a))))))"
proof (intro conjI impI)
  show "action_importer h NotJson ob = (ob, Inl JSONDecodeError)"
    by (simp add: action_importer_def)
  show "resolver_execute h rc NotJson ob = (ob, Inl JSONDecodeError)"
    by (simp add: resolver_execute_def)
  show "snd (resolver_execute h rc (JsonText (action_document n kfs)) ob) =
        snd (insert_keyframes_loop h None rc kfs (b, {}))"
    if "active_action ob = Some b"
    using resolver_runs_loop [OF that] by (rule conjunct1)
  show "active_action (fst (resolver_execute h rc (JsonText (action_document n kfs)) ob)) =
        Some (fst (fst (insert_keyframes_loop h None rc kfs (b, {}))))"
    if "active_action ob = Some b"
    using resolver_runs_loop [OF that] by (rule conjunct2)
  show "snd (action_importer h (JsonText (action_document n kfs)) ob) =
     snd (insert_keyframes_loop h None True kfs (new_action n, {}))"
    using importer_runs_loop by (rule conjunct1)
  show "active_action (fst (action_importer h (JsonText (action_document n kfs)) ob)) =
     Some (fst (fst (insert_keyframes_loop h None True kfs (new_action n, {}))))"
    using importer_runs_loop by (rule conjunct2)
  show "\<exists>e. snd (insert_keyframes_loop h None rc (pre @ kf # post) st) = Inl e"
    if "lacks_read_field kf"
    using that by (rule loop_lacking)
  show "insert_keyframes_loop h filt rc (pre @ kf # post) st = (s, Inl e)"
    if "insert_keyframes_loop h filt rc pre st = (s, Inr ()) \<and> py_getitem kf ''data_path'' = Inl e"
    using that by (simp add: loop_append insert_keyframe_no_path)
  show "insert_keyframes_loop h filt rc (map (without_field ''group'') kfs) st =
     insert_keyframes_loop h filt rc kfs st"
    by (rule loop_without_group)
  show "\<exists>a'. insert_keyframes_loop h None rc (pre @ without_field f kf0 # post) st =
                 ((a', if f \<in> {''data_path'', ''array_index''} \<or> \<not> rc then R else insert k R),
                  Inl (KeyError f)) \<and>
           (f \<in> {''data_path'', ''array_index''} \<longrightarrow> a' = a) \<and>
           (f \<notin> {''data_path'', ''array_index''} \<longrightarrow>
              fkey ` set (fcurves a') = insert k (fkey ` set (fcurves a)) \<and>
              (\<forall>k'. k' \<noteq> k \<longrightarrow> curve_points k' a' = curve_points k' a) \<and>
              (f \<in> {''co'', ''type''} \<longrightarrow>
                 curve_points k a' = (if rc \<and> k \<notin> R then [] else curve_points k a)) \<and>
              (f \<notin> {''co'', ''type''} \<longrightarrow>
                 map time (curve_points k a') =
                   map time (upsert pt (if rc \<and> k \<notin> R then [] else curve_points k a))))"
    if "insert_keyframes_loop h None rc pre st = ((a, R), Inr ()) \<and> unique_keys a \<and>
        decode_record h kf0 = Some (k, pt) \<and> f \<in> set record_fields \<and> f \<noteq> ''group''"
    using that by (intro loop_without) simp_all
qed

lemma decode_example_record:
  "decode_record example_host (example_record ''location'' 0 4 2) =
     Some ((''location'', 0), example_point 4 2)"
  by (simp add: decode_defs example_host_def example_enum_def example_record_def
      example_point_def)

theorem malformed_document_witness:
  "lacks_read_field pathless_record \<and>
   (\<exists>e. snd (insert_keyframes_loop example_host None False
               ([example_record ''location'' 0 5 1] @ pathless_record # []) (example_action, {})) = Inl e) \<and>
   snd (insert_keyframes_loop example_host None False [example_record ''location'' 0 5 1]
          (example_action, {})) = Inr () \<and>
   insert_keyframes_loop example_host None False
     ([example_record ''location'' 0 5 1] @ pathless_record # []) (example_action, {}) =
   (fst (insert_keyframes_loop example_host None False [example_record ''location'' 0 5 1]
           (example_action, {})),
    Inl (KeyError ''data_path'')) \<and>
   unique_keys example_action \<and> ''period'' \<in> set record_fields \<and>
   snd (insert_keyframes_loop example_host None True
          [without_field ''period'' (example_record ''location'' 0 4 2)] (example_action, {})) =
     Inl (KeyError ''period'') \<and>
   map time (curve_points (''location'', 0)
     (fst (fst (insert_keyframes_loop example_host None True
          [without_field ''period'' (example_record ''location'' 0 4 2)] (example_action, {}))))) = [4] \<and>
   curve_points (''location'', 0) example_action = [example_point 1 0, example_point 3 2] \<and>
   active_action example_object = Some example_action \<and>
   snd (resolver_execute example_host True
          (JsonText (action_document ''Test''
             [without_field ''period'' (example_record ''location'' 0 4 2)])) example_object) =
     Inl (KeyError ''period'')"
proof -
  let ?pre = "[example_record ''location'' 0 5 1]"
  let ?st = "(example_action, {} :: key set)"
  let ?s = "fst (insert_keyframes_loop example_host None False ?pre ?st)"
  have l: "lacks_read_field pathless_record"
    by (simp add: lacks_read_field_def read_fields_def pathless_record_def)
  have ok: "snd (insert_keyframes_loop example_host None False ?pre ?st) = Inr ()"
    by (simp add: eval_defs)
  then have run: "insert_keyframes_loop example_host None False ?pre ?st = (?s, Inr ())"
    by (metis prod.collapse)
  have g: "py_getitem pathless_record ''data_path'' = Inl (KeyError ''data_path'')"
    by (simp add: pathless_record_def)
  note T = malformed_document [where h = example_host and rc = False and kf = pathless_record
        and pre = ?pre and post = "[]" and st = ?st and filt = None and s = ?s
        and e = "KeyError ''data_path''"]
  have A: "\<exists>e. snd (insert_keyframes_loop example_host None False
               (?pre @ pathless_record # []) ?st) = Inl e"
    using T [THEN conjunct2, THEN conjunct2, THEN conjunct2, THEN conjunct2, THEN conjunct2,
             THEN conjunct1] l by (rule mp)
  have B: "insert_keyframes_loop example_host None False (?pre @ pathless_record # []) ?st =
           (?s, Inl (KeyError ''data_path''))"
    using T [THEN conjunct2, THEN conjunct2, THEN conjunct2, THEN conjunct2, THEN conjunct2,
             THEN conjunct2, THEN conjunct1] run g by blast
  have f: "''period'' \<in> set record_fields" "''period'' \<noteq> ''group''"
    by (simp_all add: record_fields_def read_fields_def)
  have e: "insert_keyframes_loop example_host None True [] ?st = ((example_action, {}), Inr ())"
    by simp
  have c: "curve_points (''location'', 0) example_action = [example_point 1 0, example_point 3 2]"
    by (simp add: curve_points_def example_action_def fkey_def)
  note U = malformed_document [where h = example_host and rc = True and pre = "[]" and post = "[]"
        and st = ?st and a = example_action and R = "{}" and f = "''period''"
        and kf0 = "example_record ''location'' 0 4 2" and k = "(''location'', 0)"
        and pt = "example_point 4 2",
        THEN conjunct2, THEN conjunct2, THEN conjunct2, THEN conjunct2, THEN conjunct2,
        THEN conjunct2, THEN conjunct2, THEN conjunct2, THEN mp,
        OF conjI [OF e conjI [OF unique_keys_example conjI [OF decode_example_record conjI [OF f]]]]]
  from U obtain a' where
    r: "insert_keyframes_loop example_host None True
          ([] @ without_field ''period'' (example_record ''location'' 0 4 2) # []) ?st =
        ((a', insert (''location'', 0) {}), Inl (KeyError ''period''))"
    and m: "map time (curve_points (''location'', 0) a') =
            map time (upsert (example_point 4 2) [])"
    by (auto simp: assignments_def)
  have C: "snd (insert_keyframes_loop example_host None True
          [without_field ''period'' (example_record ''location'' 0 4 2)] ?st) =
     Inl (KeyError ''period'')"
    using r by simp
  have D: "map time (curve_points (''location'', 0)
     (fst (fst (insert_keyframes_loop example_host None True
          [without_field ''period'' (example_record ''location'' 0 4 2)] ?st)))) = [4]"
    using r m by (simp add: upsert_def time_def example_point_def)
  have o: "active_action example_object = Some example_action"
    by (simp add: active_action_def example_object_def)
  have E: "snd (resolver_execute example_host True
          (JsonText (action_document ''Test''
             [without_field ''period'' (example_record ''location'' 0 4 2)])) example_object) =
     Inl (KeyError ''period'')"
    using malformed_document [where h = example_host and rc = True and ob = example_object
        and b = example_action and n = "''Test''"
        and kfs = "[without_field ''period'' (example_record ''location'' 0 4 2)]",
        THEN conjunct2, THEN conjunct2, THEN conjunct1, THEN mp, OF o, THEN conjunct1] C
    by simp
  from l A ok B unique_keys_example f(1) C D c o E show ?thesis by (intro conjI)
qed

text \<open>
  C8 as stated fails: the merger raises KeyError at the second record, and the first
  record's point stays in the container.
\<close>

theorem malformed_document_counterexample:
  "snd (fcurve_merger example_host
          (JsonText (action_document ''Test'' [example_record ''location'' 0 5 1, pathless_record]))
          example_object) = Inl (KeyError ''data_path'') \<and>
   active_action (fst (fcurve_merger example_host
          (JsonText (action_document ''Test'' [example_record ''location'' 0 5 1, pathless_record]))
          example_object)) \<noteq> active_action example_object"
  by (simp add: eval_defs fcurve_merger_def resolver_execute_def action_document_def
      example_object_def pathless_record_def active_action_def)

section \<open>The empty filter on well-formed documents\<close>

lemma times_upsert: "time ` set (upsert pt ps) = insert (time pt) (time ` set ps)"
proof -
  define B where "B = takeWhile (\<lambda>p. time p < time pt) ps"
  define D where "D = dropWhile (\<lambda>p. time p < time pt) ps"
  have ps: "ps = B @ D" unfolding B_def D_def by simp
  show ?thesis
  proof (cases D)
    case Nil
    then have "upsert pt ps = B @ [pt]" using upsert_Nil [of pt ps] unfolding B_def D_def by simp
    then show ?thesis using ps Nil by auto
  next
    case (Cons q qs)
    then have u: "upsert pt ps =
        (if time q = time pt then B @ pt\<lparr>kf_type := kf_type q\<rparr> # qs else B @ pt # D)"
      using upsert_Cons [of pt ps q qs] unfolding B_def D_def by simp
    have t: "time (pt\<lparr>kf_type := kf_type q\<rparr>) = time pt" by (simp add: time_def)
    show ?thesis
    proof (cases "time q = time pt")
      case True
      then have "upsert pt ps = B @ pt\<lparr>kf_type := kf_type q\<rparr> # qs" using u by simp
      then show ?thesis using ps Cons True t by auto
    next
      case False
      then have "upsert pt ps = B @ pt # D" using u by simp
      then show ?thesis using ps by auto
    qed
  qed
qed

lemma times_fold_upsert:
  "time ` set (fold upsert pts ps) = time ` set pts \<union> time ` set ps"
  by (induction pts arbitrary: ps) (auto simp: times_upsert)


text \<open>
  C10: a filter that is the empty set behaves as no filter at all, and every record is
  imported. No record takes the \<^verbatim>\<open>continue\<close> of line 177; for every document and
  container the run with the empty set and the run with no filter end with the same
  container, the same set \<^verbatim>\<open>replaced\<close> and the same result; and on a document of
  well-formed records the run with the empty set returns normally, the container has a
  channel for the key of every record, every channel holds what inserting all the
  records of its key makes of it, and every record has a point at its time in its
  channel.
\<close>

theorem empty_filter_is_no_filter:
  "filter_skips (Some {}) dp ai = Inr False \<and>
   filter_skips None dp ai = Inr False \<and>
   \<not> record_skipped (Some {}) kf \<and>
   insert_keyframes_loop h (Some {}) replace_curve kfs st =
     insert_keyframes_loop h None replace_curve kfs st \<and>
   insert_keyframes h a keyframe_data (Some {}) replace_curve =
     insert_keyframes h a keyframe_data None replace_curve \<and>
   (decode_all h kfs = Some recs \<and> unique_keys a \<longrightarrow>
      snd (insert_keyframes h a (JArr kfs) (Some {}) replace_curve) = Inr () \<and>
      fkey ` set (fcurves (fst (insert_keyframes h a (JArr kfs) (Some {}) replace_curve))) =
        fkey ` set (fcurves a) \<union> fst ` set recs \<and>
      curve_points k (fst (insert_keyframes h a (JArr kfs) (Some {}) replace_curve)) =
        fold upsert (points_for k recs)
          (if replace_curve \<and> points_for k recs \<noteq> [] then [] else curve_points k a) \<and>
      (\<forall>r\<in>set recs.
         time (snd r) \<in> time ` set (curve_points (fst r)
           (fst (insert_keyframes h a (JArr kfs) (Some {}) replace_curve)))))"
proof -
  have e: "insert_keyframes h a d (Some {}) replace_curve =
        insert_keyframes h a d None replace_curve" for d
    by (simp only: insert_keyframes_def loop_empty_filter)
  have f1: "filter_skips (Some {}) dp ai = Inr False" by (simp add: filter_skips_def)
  have f2: "filter_skips None dp ai = Inr False" by (simp add: filter_skips_def)
  have s: "\<not> record_skipped (Some {}) kf"
    by (simp add: record_skipped_def filter_skips_def split: sum.splits)
  have l: "insert_keyframes_loop h (Some {}) replace_curve kfs st =
     insert_keyframes_loop h None replace_curve kfs st"
    by (rule loop_empty_filter)
  have w: "decode_all h kfs = Some recs \<and> unique_keys a \<longrightarrow>
      snd (insert_keyframes h a (JArr kfs) (Some {}) replace_curve) = Inr () \<and>
      fkey ` set (fcurves (fst (insert_keyframes h a (JArr kfs) (Some {}) replace_curve))) =
        fkey ` set (fcurves a) \<union> fst ` set recs \<and>
      curve_points k (fst (insert_keyframes h a (JArr kfs) (Some {}) replace_curve)) =
        fold upsert (points_for k recs)
          (if replace_curve \<and> points_for k recs \<noteq> [] then [] else curve_points k a) \<and>
      (\<forall>r\<in>set recs.
         time (snd r) \<in> time ` set (curve_points (fst r)
           (fst (insert_keyframes h a (JArr kfs) (Some {}) replace_curve))))"
  proof (intro impI, elim conjE)
    assume d: "decode_all h kfs = Some recs" and u: "unique_keys a"
    note dec = insert_keyframes_decoded [OF d u, of replace_curve]
    note c1 = dec [THEN conjunct1]
    note c5 = dec [THEN conjunct2, THEN conjunct2, THEN conjunct2, THEN conjunct2, THEN conjunct1]
    note c6 = dec [THEN conjunct2, THEN conjunct2, THEN conjunct2, THEN conjunct2, THEN conjunct2]
    have m: "\<forall>r\<in>set recs. time (snd r) \<in> time ` set (curve_points (fst r)
           (fst (insert_keyframes h a (JArr kfs) None replace_curve)))"
    proof
      fix r assume r: "r \<in> set recs"
      have "snd r \<in> set (points_for (fst r) recs)"
        using r by (simp add: points_for_def)
      then have "time (snd r) \<in> time ` set (points_for (fst r) recs)" by (rule imageI)
      then show "time (snd r) \<in> time ` set (curve_points (fst r)
           (fst (insert_keyframes h a (JArr kfs) None replace_curve)))"
        unfolding c6 [of "fst r"] times_fold_upsert by (rule UnI1)
    qed
    show "snd (insert_keyframes h a (JArr kfs) (Some {}) replace_curve) = Inr () \<and>
      fkey ` set (fcurves (fst (insert_keyframes h a (JArr kfs) (Some {}) replace_curve))) =
        fkey ` set (fcurves a) \<union> fst ` set recs \<and>
      curve_points k (fst (insert_keyframes h a (JArr kfs) (Some {}) replace_curve)) =
        fold upsert (points_for k recs)
          (if replace_curve \<and> points_for k recs \<noteq> [] then [] else curve_points k a) \<and>
      (\<forall>r\<in>set recs.
         time (snd r) \<in> time ` set (curve_points (fst r)
           (fst (insert_keyframes h a (JArr kfs) (Some {}) replace_curve))))"
      unfolding e using c1 c5 c6 [of k] m by (intro conjI)
  qed
  from f1 f2 s l e [of keyframe_data] w show ?thesis by (intro conjI)
qed


theorem empty_filter_is_no_filter_witness:
  "\<not> record_skipped (Some {}) (example_record ''location'' 0 5 1) \<and>
   insert_keyframes example_host example_action (JArr example_keyframes) (Some {}) True =
     insert_keyframes example_host example_action (JArr example_keyframes) None True \<and>
   snd (insert_keyframes example_host example_action (JArr example_keyframes) (Some {}) True) = Inr () \<and>
   fkey ` set (fcurves (fst (insert_keyframes example_host example_action
     (JArr example_keyframes) (Some {}) True))) = {(''location'', 0), (''scale'', 2)} \<and>
   curve_points (''location'', 0) (fst (insert_keyframes example_host example_action
     (JArr example_keyframes) (Some {}) True)) = [example_point 4 2, example_point 5 1]"
proof -
  let ?recs = "[((''location'', 0 :: int), example_point 5 1), ((''scale'', 2), example_point 4 0),
                ((''location'', 0), example_point 4 2)]"
  have p: "points_for (''location'', 0) ?recs = [example_point 5 1, example_point 4 2]"
    by (simp add: points_for_def)
  have f: "upsert (example_point 4 2) (upsert (example_point 5 1) []) =
           [example_point 4 2, example_point 5 1]"
    by (simp add: upsert_def time_def example_point_def)
  have k: "fkey ` set (fcurves example_action) \<union> fst ` set ?recs = {(''location'', 0), (''scale'', 2)}"
    by (simp add: example_action_def fkey_def insert_commute)
  note T = empty_filter_is_no_filter [where h = example_host and a = example_action
        and kfs = example_keyframes and recs = ?recs and replace_curve = True
        and keyframe_data = "JArr example_keyframes" and k = "(''location'', 0)"
        and kf = "example_record ''location'' 0 5 1"]
  note T3 = T [THEN conjunct2, THEN conjunct2, THEN conjunct1]
  note T5 = T [THEN conjunct2, THEN conjunct2, THEN conjunct2, THEN conjunct2, THEN conjunct1]
  note W = T [THEN conjunct2, THEN conjunct2, THEN conjunct2, THEN conjunct2, THEN conjunct2,
              THEN mp, OF conjI [OF decode_example_keyframes unique_keys_example]]
  note W1 = W [THEN conjunct1]
  note W2 = W [THEN conjunct2, THEN conjunct1, unfolded k]
  have W3: "curve_points (''location'', 0) (fst (insert_keyframes example_host example_action
     (JArr example_keyframes) (Some {}) True)) = [example_point 4 2, example_point 5 1]"
    using W [THEN conjunct2, THEN conjunct2, THEN conjunct1] unfolding p by (simp add: f)
  from T3 T5 W1 W2 W3 show ?thesis by (intro conjI)
qed

section \<open>Coercion of the numeric fields\<close>

text \<open>
  C5 at concrete records: an \<^verbatim>\<open>amplitude\<close> given as the string \<^verbatim>\<open>"0.5"\<close> goes through
  \<^verbatim>\<open>float\<close> and is stored as 0.5; a \<^verbatim>\<open>period\<close> given as an integer is accepted by the
  host as it is; a \<^verbatim>\<open>period\<close> given as the string \<^verbatim>\<open>"0.1"\<close> is handed to the host
  uncoerced and the import ends with TypeError.
\<close>

theorem period_not_coerced:
  "snd (insert_keyframes example_host (new_action ''Test'')
          (JArr [with_field ''amplitude'' (JStr ''0.5'') (example_record ''location'' 0 1 0)])
          None True) = Inr () \<and>
   map amplitude (curve_points (''location'', 0)
     (fst (insert_keyframes example_host (new_action ''Test'')
             (JArr [with_field ''amplitude'' (JStr ''0.5'') (example_record ''location'' 0 1 0)])
             None True))) = [1 / 2] \<and>
   snd (insert_keyframes example_host (new_action ''Test'')
          (JArr [with_field ''period'' (JInt 2) (example_record ''location'' 0 1 0)])
          None True) = Inr () \<and>
   snd (insert_keyframes example_host (new_action ''Test'')
          (JArr [with_field ''period'' (JStr ''0.1'') (example_record ''location'' 0 1 0)])
          None True) = Inl TypeError"
  by (simp add: eval_defs)

section \<open>Export of sampled channels\<close>

lemma export_channel_form:
  assumes "samples_restore h" and "export_channel h g c = (c', Inr recs)"
  shows "sampled c' = sampled c"
proof (cases "keyframe_points c = []")
  case False
  then show ?thesis using assms(2) by (simp add: export_channel_def)
next
  case True
  then obtain c1 where
    "convert_to_samples h (py_trunc (fst (frange h c1))) (py_trunc (snd (frange h c1))) c1 = Inr c'"
    using assms(2) by (auto simp: export_channel_def split: sum.splits)
  then have "sampled c'" using assms(1) unfolding samples_restore_def by blast
  then show ?thesis using True by (simp add: sampled_def)
qed

lemma export_group_form:
  "samples_restore h \<Longrightarrow> export_group h g cs = (cs', Inr recs) \<Longrightarrow>
   map sampled cs' = map sampled cs"
proof (induction cs arbitrary: cs' recs)
  case Nil
  then show ?case by simp
next
  case (Cons c cs)
  show ?case
  proof (cases "group c = Some g")
    case False
    then obtain cs1 where "export_group h g cs = (cs1, Inr recs)" "cs' = c # cs1"
      using Cons.prems(2) by (auto split: prod.splits)
    then show ?thesis using Cons.IH [OF Cons.prems(1)] by simp
  next
    case True
    then obtain c1 r1 cs1 r2 where
      e: "export_channel h g c = (c1, Inr r1)" "export_group h g cs = (cs1, Inr r2)" "cs' = c1 # cs1"
      using Cons.prems(2) by (auto split: prod.splits sum.splits)
    show ?thesis
      using export_channel_form [OF Cons.prems(1) e(1)] Cons.IH [OF Cons.prems(1) e(2)] e(3)
      by simp
  qed
qed

lemma export_groups_form:
  "samples_restore h \<Longrightarrow> export_groups h gs cs = (cs', Inr recs) \<Longrightarrow>
   map sampled cs' = map sampled cs"
proof (induction gs arbitrary: cs cs' recs)
  case Nil
  then show ?case by simp
next
  case (Cons g gs)
  from Cons.prems(2) obtain cs1 r1 r2 where
    e: "export_group h g cs = (cs1, Inr r1)" "export_groups h gs cs1 = (cs', Inr r2)"
    by (auto split: prod.splits sum.splits)
  show ?case
    using export_group_form [OF Cons.prems(1) e(1)] Cons.IH [OF Cons.prems(1) e(2)] by simp
qed

text \<open>
  The exits of the export of one channel in sampled storage. When it returns the
  records, the host converted the channel to keyframes, the records are those of the
  keyframe form, and the channel is what the host's conversion back returned. When it
  raises, either the first conversion raised and the channel is untouched, or the
  conversion back raised and the channel is left in its keyframe form. A whole export
  that returns normally leaves every channel in the storage form it had, for a host
  whose \<^verbatim>\<open>convert_to_samples\<close> returns channels without keyframe points.
\<close>

lemma export_channel_exits:
  assumes "sampled c" and "export_channel h g c = (c', r)"
  shows "(\<forall>recs. r = Inr recs \<longrightarrow>
            (\<exists>c1. convert_to_keyframes h (py_trunc (fst (frange h c))) (py_trunc (snd (frange h c))) c = Inr c1 \<and>
                  convert_to_samples h (py_trunc (fst (frange h c1))) (py_trunc (snd (frange h c1))) c1 = Inr c' \<and>
                  recs = channel_records g c1 \<and>
                  (\<not> sampled c1 \<longrightarrow> export_channel h g c1 = (c1, Inr recs)) \<and>
                  (samples_restore h \<longrightarrow> sampled c'))) \<and>
         (\<forall>e. r = Inl e \<longrightarrow>
            (c' = c \<and> convert_to_keyframes h (py_trunc (fst (frange h c))) (py_trunc (snd (frange h c))) c = Inl e) \<or>
            (convert_to_keyframes h (py_trunc (fst (frange h c))) (py_trunc (snd (frange h c))) c = Inr c' \<and>
             convert_to_samples h (py_trunc (fst (frange h c'))) (py_trunc (snd (frange h c'))) c' = Inl e)) \<and>
         (\<forall>gs cs cs' recs. samples_restore h \<and> export_groups h gs cs = (cs', Inr recs) \<longrightarrow>
            map sampled cs' = map sampled cs)"
proof (intro conjI allI impI)
  fix recs assume "r = Inr recs"
  then show "\<exists>c1. convert_to_keyframes h (py_trunc (fst (frange h c))) (py_trunc (snd (frange h c))) c = Inr c1 \<and>
                  convert_to_samples h (py_trunc (fst (frange h c1))) (py_trunc (snd (frange h c1))) c1 = Inr c' \<and>
                  recs = channel_records g c1 \<and>
                  (\<not> sampled c1 \<longrightarrow> export_channel h g c1 = (c1, Inr recs)) \<and>
                  (samples_restore h \<longrightarrow> sampled c')"
    using assms unfolding samples_restore_def
    by (auto simp: export_channel_def sampled_def split: sum.splits)
next
  fix e assume "r = Inl e"
  then show "(c' = c \<and> convert_to_keyframes h (py_trunc (fst (frange h c))) (py_trunc (snd (frange h c))) c = Inl e) \<or>
            (convert_to_keyframes h (py_trunc (fst (frange h c))) (py_trunc (snd (frange h c))) c = Inr c' \<and>
             convert_to_samples h (py_trunc (fst (frange h c'))) (py_trunc (snd (frange h c'))) c' = Inl e)"
    using assms by (auto simp: export_channel_def sampled_def split: sum.splits)
next
  fix gs cs cs' recs
  assume "samples_restore h \<and> export_groups h gs cs = (cs', Inr recs)"
  then show "map sampled cs' = map sampled cs"
    using export_groups_form by blast
qed

lemma trunc_numerals: "py_trunc 1 = 1" "py_trunc 2 = 2" "py_trunc 3 = 3" "py_trunc 4 = 4"
  by (simp_all add: py_trunc_def)

lemma time_example_fresh: "time (example_fresh ps t v) = t"
  by (simp add: time_def example_fresh_def)

lemma frange_example: "frange example_host = example_range"
  and to_keyframes_example: "convert_to_keyframes example_host = example_to_keyframes"
  and to_samples_example: "convert_to_samples example_host = example_to_samples"
  by (simp_all add: example_host_def)

lemma export_short:
  "export_channel example_host g (sampled_channel [1, 2]) = (keyed_channel [1], Inl RuntimeError)"
proof -
  have r: "example_range (sampled_channel [1, 2]) = (1, 2)"
    by (simp add: sampled_channel_def example_range_def)
  have k: "example_to_keyframes 1 2 (sampled_channel [1, 2]) = Inr (keyed_channel [1])"
    by (simp add: sampled_channel_def example_to_keyframes_def keyed_channel_def)
  have r1: "example_range (keyed_channel [1]) = (1, 1)"
    by (simp add: keyed_channel_def example_range_def time_example_fresh)
  have s: "example_to_samples 1 1 (keyed_channel [1]) = Inl RuntimeError"
    by (simp add: example_to_samples_def)
  have e: "keyframe_points (sampled_channel [1, 2]) = []"
    by (simp add: sampled_channel_def)
  show ?thesis
    unfolding export_channel_def frange_example to_keyframes_example to_samples_example
    by (simp add: e r k r1 s trunc_numerals)
qed

lemma export_long:
  "export_channel example_host g (sampled_channel [1, 2, 3, 4]) =
     (sampled_channel [1, 2], Inr (channel_records g (keyed_channel [1, 2, 3])))"
proof -
  have r: "example_range (sampled_channel [1, 2, 3, 4]) = (1, 4)"
    by (simp add: sampled_channel_def example_range_def)
  have k: "example_to_keyframes 1 4 (sampled_channel [1, 2, 3, 4]) = Inr (keyed_channel [1, 2, 3])"
    by (simp add: sampled_channel_def example_to_keyframes_def keyed_channel_def)
  have r1: "example_range (keyed_channel [1, 2, 3]) = (1, 3)"
    by (simp add: keyed_channel_def example_range_def time_example_fresh)
  have s: "example_to_samples 1 3 (keyed_channel [1, 2, 3]) = Inr (sampled_channel [1, 2])"
    by (simp add: example_to_samples_def keyed_channel_def sampled_channel_def time_example_fresh)
       (simp add: example_fresh_def)
  have e: "keyframe_points (sampled_channel [1, 2, 3, 4]) = []"
    by (simp add: sampled_channel_def)
  show ?thesis
    unfolding export_channel_def frange_example to_keyframes_example to_samples_example
    by (simp add: e r k r1 s trunc_numerals)
qed

lemma example_samples_restore: "samples_restore example_host"
  by (auto simp: samples_restore_def example_host_def example_to_samples_def sampled_def
      split: if_splits)

text \<open>
  C6 at a concrete channel. With samples at the frames 1 to 4 the export returns with
  the channel in sampled storage again: the code converts back on the straight path.
  With samples at the frames 1 and 2 the channel becomes one keyframe, its range is then
  empty, the conversion back of line 108 raises, and the export ends with that
  exception, no file written and the channel left in keyframe storage: nothing around
  lines 96 to 108 restores the form on an error exit.
\<close>

theorem sampled_export_error_exit:
  "sampled (sampled_channel [1, 2, 3, 4]) \<and>
   sampled (fst (export_channel example_host ''Object Transforms'' (sampled_channel [1, 2, 3, 4]))) \<and>
   sampled (sampled_channel [1, 2]) \<and>
   exporter_execute example_host True (baked_object (sampled_channel [1, 2])) =
     (baked_object (keyed_channel [1]), Inl RuntimeError) \<and>
   \<not> sampled (keyed_channel [1])"
proof -
  have g: "group (sampled_channel [1, 2]) = Some ''Object Transforms''"
    by (simp add: sampled_channel_def)
  have "export_groups example_host [''Object Transforms''] [sampled_channel [1, 2]] =
        ([keyed_channel [1]], Inl RuntimeError)"
    by (simp add: g export_short)
  then show ?thesis
    by (simp add: exporter_execute_def baked_object_def sampled_def export_long)
       (simp add: sampled_channel_def keyed_channel_def)
qed

section \<open>Export followed by import\<close>










lemma points_for_append: "points_for k (xs @ ys) = points_for k xs @ points_for k ys"
  by (simp add: points_for_def)




lemma concat_no_key:
  "k \<notin> fkey ` set cs \<Longrightarrow>
   concat (map (\<lambda>c'. if fkey c' = k then F c' else []) (filter Q cs)) = []"
  by (induction cs) auto


















end
